theory Spec2Isabelle
  imports Complex_Main
begin

section \<open>The DexScreener monitor bot (dexscreener\_bot.py)\<close>

text \<open>
  The bot is a single-threaded poll, compare, notify loop over module-level
  dictionaries and sets.  The module globals become one record \<open>state\<close> that every
  procedure takes and returns; the answers of the outside world (HTTP GETs against the
  market-data API, POSTs against Telegram) come from an environment \<open>env\<close> whose
  oracles are indexed by the number of network calls made so far, so that the same
  URL may answer differently each time it is asked.

  Data conventions.  A JSON object of a feed is a record whose fields are options:
  \<open>None\<close> is what \<open>record.get(key)\<close> returns for a missing key or a JSON null; for
  the fields of an order, which the source reads with a default, \<open>None\<close> is the missing
  key.  Identity fields, URLs and free texts are strings; boost totals and payment
  timestamps are JSON integers, that is Python's unbounded \<open>int\<close>.  A string is a
  list of bytes, so every length and slice below counts bytes.  Of the console output
  only the alerts are kept, and the start time of the statistics is left out.
\<close>

subsection \<open>Values, exceptions and HTTP outcomes\<close>

type_synonym key = "string \<times> string"

datatype exn = RequestException | JSONDecodeError | TypeError | ValueError | KeyError

text \<open>
  What \<open>requests.get\<close> or \<open>requests.post\<close> does: it raises, or it returns a response
  with a status code on which \<open>response.json()\<close> either raises or returns a value.
\<close>

datatype 'a http = Raised exn | Response int "exn + 'a"

text \<open>
  A decoded top-level JSON value as the feed procedures look at it: a list of
  records, or any other non-null value, of which only Python's truthiness matters.
  The Python value \<open>None\<close> is \<open>None\<close> of the option type around it.
\<close>

datatype 'r payload = JList "'r list" | JOther bool

fun truthy_payload :: "'r payload option \<Rightarrow> bool" where
  "truthy_payload None = False"
| "truthy_payload (Some (JList rs)) = (rs \<noteq> [])"
| "truthy_payload (Some (JOther b)) = b"

text \<open>Scalars of the trading-pair listing (price, market cap, fully diluted value).\<close>

datatype jval = JNull | JStr string | JNum rat

fun truthy_jval :: "jval \<Rightarrow> bool" where
  "truthy_jval JNull = False"
| "truthy_jval (JStr s) = (s \<noteq> [])"
| "truthy_jval (JNum q) = (q \<noteq> 0)"

fun truthy_str :: "string option \<Rightarrow> bool" where
  "truthy_str None = False"
| "truthy_str (Some s) = (s \<noteq> [])"

subsection \<open>Records of the feeds\<close>

record link =
  link_type :: "string option"
  link_url :: "string option"
  link_label :: "string option"

record ad =
  ad_chainId :: "string option"
  ad_tokenAddress :: "string option"
  ad_date :: "string option"
  ad_durationHours :: "int option"
  ad_url :: "string option"

record profile =
  pf_chainId :: "string option"
  pf_tokenAddress :: "string option"
  pf_openGraph :: "string option"
  pf_header :: "string option"
  pf_icon :: "string option"
  pf_links :: "link list option"
  pf_description :: "string option"
  pf_url :: "string option"

record boost =
  bo_chainId :: "string option"
  bo_tokenAddress :: "string option"
  bo_totalAmount :: "int option"
  bo_amount :: "int option"

record paid_order =
  od_paymentTimestamp :: "int option"
  od_type :: "string option"
  od_status :: "string option"

text \<open>
  The object returned by the orders endpoint: its \<open>orders\<close> entry when it has one, and
  whether it has any other entry (an object without entries is falsy in Python).
\<close>

record orders_doc =
  doc_orders :: "paid_order list option"
  doc_other_keys :: bool

definition truthy_doc :: "orders_doc option \<Rightarrow> bool" where
  "truthy_doc d = (case d of None \<Rightarrow> False
                   | Some x \<Rightarrow> doc_orders x \<noteq> None \<or> doc_other_keys x)"

record base_token =
  base_name :: "string option"
  base_symbol :: "string option"

record pair =
  pair_baseToken :: "base_token option"
  pair_priceUsd :: jval
  pair_marketCap :: jval
  pair_fdv :: jval

text \<open>
  One update of Telegram's \<open>getUpdates\<close>: the text of its message when it has a
  message with a text, whether \<open>update["message"]["chat"]["id"]\<close> exists, and whether
  \<open>update["update_id"]\<close> exists.  The answer itself: the truthiness of its \<open>ok\<close>
  entry and its \<open>result\<close> entry when it has one.
\<close>

record update =
  up_text :: "string option"
  up_has_chat_id :: bool
  up_has_update_id :: bool

record updates_doc =
  upd_ok :: bool
  upd_result :: "update list option"

text \<open>The dictionary built by \<open>get_token_info\<close>; the empty dictionary is \<open>None\<close>.\<close>

record token_info =
  ti_name :: string
  ti_symbol :: string
  ti_price_usd :: jval
  ti_market_cap :: jval

subsection \<open>Alerts, Telegram requests and the log\<close>

text \<open>
  An alert is a title and a list of display lines.  Each f-string template of the
  source is one constructor that carries the interpolated values unrendered.
\<close>

datatype title = NEW_AD | NEW_TOKEN_PROFILE | NEW_BOOST | NEW_ORDER string

datatype line =
    Type_line string
  | Chain_line string
  | Token_line "string option" "string option"
  | Address_line string
  | Started_line "string option"
  | Duration_line "int option"
  | Price_line jval
  | Market_Cap_line jval
  | URL_line string
  | Description_line string
  | New_Boost_line "int option" int
  | Previous_line int int
  | Order_Type_line string
  | Status_line string
  | Paid_At_line int

type_synonym alert = "title \<times> line list"

datatype xval = XStr string | XLinks "link list"

type_synonym extra_info = "(string \<times> xval) list"

fun truthy_xval :: "xval option \<Rightarrow> bool" where
  "truthy_xval None = False"
| "truthy_xval (Some (XStr s)) = (s \<noteq> [])"
| "truthy_xval (Some (XLinks ls)) = (ls \<noteq> [])"

text \<open>
  The text of a Telegram message is represented by what it is rendered from; a
  request is the POST issued, with its photo argument when it has one.
\<close>

datatype message = Alert_message title "line list" extra_info | Startup_message
  | Welcome_message | Status_message nat nat nat nat

datatype request = SendPhoto "xval option" message | SendMessage message

datatype log_entry =
    Warn_photo_send_error exn
  | Warn_send_failed int
  | Warn_send_error exn
  | Info_new_ad string string
  | Info_new_profile string string
  | Info_new_boost string string int
  | Info_new_order string string string

subsection \<open>The module state and the environment\<close>

record stats =
  polls :: nat
  ads_detected :: nat
  boosts_detected :: nat
  orders_detected :: nat
  errors :: nat

record state =
  stats :: stats
  seen_ads :: "key set"
  seen_boosts :: "string \<rightharpoonup> int"
  seen_orders :: "string \<rightharpoonup> int"
  seen_profiles :: "key set"
  profile_headers :: "key \<rightharpoonup> string"
  profile_socials :: "key \<rightharpoonup> link list"
  known_tokens :: "key set"
  alerts :: "alert list"
  outbox :: "request list"
  logged :: "log_entry list"
  clock :: nat

record env =
  USE_TELEGRAM :: bool
  BOT_START_MS :: int
  ads_api :: "nat \<Rightarrow> ad payload option http"
  profiles_api :: "nat \<Rightarrow> profile payload option http"
  boosts_api :: "nat \<Rightarrow> boost payload option http"
  tokens_api :: "nat \<Rightarrow> string \<Rightarrow> string \<Rightarrow> pair payload option http"
  orders_api :: "nat \<Rightarrow> string \<Rightarrow> string \<Rightarrow> orders_doc option http"
  telegram_api :: "nat \<Rightarrow> request \<Rightarrow> unit http"
  updates_api :: "nat \<Rightarrow> updates_doc http"
  snapshot :: "key set \<Rightarrow> key list"

definition initial_stats :: stats where
  "initial_stats = \<lparr>polls = 0, ads_detected = 0, boosts_detected = 0,
                    orders_detected = 0, errors = 0\<rparr>"

definition initial_state :: state where
  "initial_state = \<lparr>stats = initial_stats, seen_ads = {}, seen_boosts = Map.empty,
     seen_orders = Map.empty, seen_profiles = {}, profile_headers = Map.empty,
     profile_socials = Map.empty, known_tokens = {}, alerts = [], outbox = [],
     logged = [], clock = 0\<rparr>"

subsection \<open>fetch\_json and get\_token\_info\<close>

text \<open>
  The body of the \<open>try\<close> block of \<open>fetch_json\<close>: the value it returns (\<open>Inr\<close>), or
  the exception that leaves it (\<open>Inl\<close>).  The argument is the answer of the world to
  this GET.
\<close>

definition fetch_json_try :: "'a option http \<Rightarrow> exn + 'a option" where
  "fetch_json_try r =
     (case r of
        Raised e \<Rightarrow> Inl e
      | Response status_code body \<Rightarrow>
          if status_code \<noteq> 200 then Inr None
          else (case body of Inl e \<Rightarrow> Inl e | Inr v \<Rightarrow> Inr v))"

text \<open>
  \<open>fetch_json\<close> with its handler \<open>except Exception\<close>, which takes every exception of
  the block: the function returns on each path, so its result has no exceptional
  branch.  Every call advances the clock of network calls.
\<close>

definition fetch_json :: "'a option http \<Rightarrow> state \<Rightarrow> 'a option \<times> state" where
  "fetch_json r s =
     (let s1 = s\<lparr>clock := clock s + 1\<rparr> in
      case fetch_json_try r of
        Inr v \<Rightarrow> (v, s1)
      | Inl exc \<Rightarrow> (None, s1\<lparr>stats := (stats s1)\<lparr>errors := errors (stats s1) + 1\<rparr>\<rparr>))"

definition or_str :: "string option \<Rightarrow> string \<Rightarrow> string" where
  "or_str x d = (case x of None \<Rightarrow> d | Some s \<Rightarrow> if s = [] then d else s)"

definition or_jval :: "jval \<Rightarrow> jval \<Rightarrow> jval" where
  "or_jval x y = (if truthy_jval x then x else y)"

definition get_token_info ::
  "env \<Rightarrow> string \<Rightarrow> string \<Rightarrow> state \<Rightarrow> token_info option \<times> state" where
  "get_token_info e chain_id token_address s =
     (let (data, s1) = fetch_json (tokens_api e (clock s) chain_id token_address) s in
      case data of
        Some (JList (pair # rest)) \<Rightarrow>
          (let base = (case pair_baseToken pair of
                         None \<Rightarrow> \<lparr>base_name = None, base_symbol = None\<rparr>
                       | Some b \<Rightarrow> b)
           in (Some \<lparr>ti_name = or_str (base_name base) (take 8 token_address @ ''...''),
                     ti_symbol = or_str (base_symbol base) [],
                     ti_price_usd = pair_priceUsd pair,
                     ti_market_cap = or_jval (pair_marketCap pair) (pair_fdv pair)\<rparr>, s1))
      | _ \<Rightarrow> (None, s1))"

definition info_name :: "token_info option \<Rightarrow> string option" where
  "info_name ti = map_option ti_name ti"

definition info_symbol :: "token_info option \<Rightarrow> string option" where
  "info_symbol ti = map_option ti_symbol ti"

definition info_price :: "token_info option \<Rightarrow> jval" where
  "info_price ti = (case ti of None \<Rightarrow> JNull | Some t \<Rightarrow> ti_price_usd t)"

definition info_market_cap :: "token_info option \<Rightarrow> jval" where
  "info_market_cap ti = (case ti of None \<Rightarrow> JNull | Some t \<Rightarrow> ti_market_cap t)"

subsection \<open>Telegram delivery\<close>

definition send_telegram_message :: "env \<Rightarrow> message \<Rightarrow> state \<Rightarrow> bool \<times> state" where
  "send_telegram_message e text s =
     (if \<not> USE_TELEGRAM e then (False, s)
      else
        let s1 = s\<lparr>outbox := outbox s @ [SendMessage text], clock := clock s + 1\<rparr> in
        case telegram_api e (clock s) (SendMessage text) of
          Response status_code body \<Rightarrow>
            if status_code = 200 then (True, s1)
            else (False, s1\<lparr>logged := logged s1 @ [Warn_send_failed status_code]\<rparr>)
        | Raised ex \<Rightarrow> (False, s1\<lparr>logged := logged s1 @ [Warn_send_error ex]\<rparr>))"

definition send_telegram_photo ::
  "env \<Rightarrow> xval option \<Rightarrow> message \<Rightarrow> state \<Rightarrow> bool \<times> state" where
  "send_telegram_photo e photo_url caption s =
     (if \<not> USE_TELEGRAM e then (False, s)
      else
        let s1 = s\<lparr>outbox := outbox s @ [SendPhoto photo_url caption], clock := clock s + 1\<rparr> in
        case telegram_api e (clock s) (SendPhoto photo_url caption) of
          Response status_code body \<Rightarrow>
            if status_code = 200 then (True, s1)
            else send_telegram_message e caption s1
        | Raised ex \<Rightarrow>
            send_telegram_message e caption (s1\<lparr>logged := logged s1 @ [Warn_photo_send_error ex]\<rparr>))"

subsection \<open>Image selection of format\_telegram\_alert\<close>

definition chart_image_url :: "string \<Rightarrow> string \<Rightarrow> string" where
  "chart_image_url chain_id token_address =
     (''https://api.dexscreener.com/token-chart-img/'' @ chain_id @ ''/'' @ token_address)
     @ ''?w=800&h=450''"

definition thumbnail_url :: "string \<Rightarrow> string \<Rightarrow> string" where
  "thumbnail_url chain_id token_address =
     ''https://dd.dexscreener.com/ds-data/tokens/'' @ chain_id @ ''/'' @ token_address @ ''.png''"

text \<open>
  The three assignments to \<open>image_url\<close> at the end of \<open>format_telegram_alert\<close>, one
  definition each.  \<open>extra_info\<close> is \<open>None\<close> for the default argument; a dictionary
  is an association list and is truthy when it has an entry.
\<close>

definition image_first_try :: "extra_info option \<Rightarrow> xval option" where
  "image_first_try extra =
     (case extra of
        None \<Rightarrow> None
      | Some d \<Rightarrow> if d \<noteq> [] then map_of d ''header_image'' else None)"

definition image_second_try :: "xval option \<Rightarrow> string \<Rightarrow> string \<Rightarrow> xval option" where
  "image_second_try image_url chain_id token_address =
     (if \<not> truthy_xval image_url then Some (XStr (chart_image_url chain_id token_address))
      else image_url)"

definition image_last_resort :: "xval option \<Rightarrow> string \<Rightarrow> string \<Rightarrow> xval option" where
  "image_last_resort image_url chain_id token_address =
     (if \<not> truthy_xval image_url then Some (XStr (thumbnail_url chain_id token_address))
      else image_url)"

definition format_telegram_alert_image ::
  "extra_info option \<Rightarrow> string \<Rightarrow> string \<Rightarrow> xval option" where
  "format_telegram_alert_image extra chain_id token_address =
     image_last_resort
       (image_second_try (image_first_try extra) chain_id token_address)
       chain_id token_address"

subsection \<open>print\_alert\<close>

text \<open>
  \<open>s.strip()\<close> removes the white space of Python at both ends.  The characters that
  \<open>str.isspace\<close> accepts, in UTF-8: U+0009 to U+000D, U+001C to U+0020, U+0085, U+00A0,
  U+1680, U+2000 to U+200A, U+2028, U+2029, U+202F, U+205F and U+3000.
\<close>

definition whitespace :: "string list" where
  "whitespace =
     [[CHR 0x09], [CHR 0x0A], [CHR 0x0B], [CHR 0x0C], [CHR 0x0D],
      [CHR 0x1C], [CHR 0x1D], [CHR 0x1E], [CHR 0x1F], [CHR 0x20],
      [CHR 0xC2, CHR 0x85], [CHR 0xC2, CHR 0xA0], [CHR 0xE1, CHR 0x9A, CHR 0x80],
      [CHR 0xE2, CHR 0x80, CHR 0x80], [CHR 0xE2, CHR 0x80, CHR 0x81],
      [CHR 0xE2, CHR 0x80, CHR 0x82], [CHR 0xE2, CHR 0x80, CHR 0x83],
      [CHR 0xE2, CHR 0x80, CHR 0x84], [CHR 0xE2, CHR 0x80, CHR 0x85],
      [CHR 0xE2, CHR 0x80, CHR 0x86], [CHR 0xE2, CHR 0x80, CHR 0x87],
      [CHR 0xE2, CHR 0x80, CHR 0x88], [CHR 0xE2, CHR 0x80, CHR 0x89],
      [CHR 0xE2, CHR 0x80, CHR 0x8A], [CHR 0xE2, CHR 0x80, CHR 0xA8],
      [CHR 0xE2, CHR 0x80, CHR 0xA9], [CHR 0xE2, CHR 0x80, CHR 0xAF],
      [CHR 0xE2, CHR 0x81, CHR 0x9F], [CHR 0xE3, CHR 0x80, CHR 0x80]]"

text \<open>
  The length of the first character of \<open>ws\<close> that \<open>s\<close> starts with, 0 when it starts with
  none; then the text without the characters of \<open>ws\<close> that it starts with.
\<close>

definition space_prefix :: "string list \<Rightarrow> string \<Rightarrow> nat" where
  "space_prefix ws s =
     (case filter (\<lambda>w. w \<noteq> [] \<and> take (length w) s = w) ws of
        [] \<Rightarrow> 0
      | w # others \<Rightarrow> length w)"

function lstrip_of :: "string list \<Rightarrow> string \<Rightarrow> string" where
  "lstrip_of ws s =
     (if space_prefix ws s = 0 then s else lstrip_of ws (drop (space_prefix ws s) s))"
  by pat_completeness auto
termination
proof (relation "measure (\<lambda>(ws, s). length s)")
  show "wf (measure (\<lambda>(ws :: string list, s :: string). length s))" by simp
next
  fix ws :: "string list" and s :: string
  assume a: "space_prefix ws s \<noteq> 0"
  then obtain w others
    where "filter (\<lambda>w. w \<noteq> [] \<and> take (length w) s = w) ws = w # others"
    by (auto simp: space_prefix_def split: list.splits)
  then have "w \<in> set (filter (\<lambda>w. w \<noteq> [] \<and> take (length w) s = w) ws)" by simp
  then have "w \<noteq> []" "take (length w) s = w" by simp_all
  then have "s \<noteq> []" by auto
  with a show "((ws, drop (space_prefix ws s) s), (ws, s)) \<in> measure (\<lambda>(ws, s). length s)"
    by simp
qed

declare lstrip_of.simps [simp del]

definition strip :: "string \<Rightarrow> string" where
  "strip s = rev (lstrip_of (map rev whitespace) (rev (lstrip_of whitespace s)))"

text \<open>\<open>s.replace(pat, "")\<close>: the occurrences of \<open>pat\<close> are removed from left to right.\<close>

fun remove_all :: "string \<Rightarrow> string \<Rightarrow> string" where
  "remove_all pat [] = []"
| "remove_all pat (x # xs) =
     (if pat \<noteq> [] \<and> take (length pat) (x # xs) = pat
      then remove_all pat (drop (length pat) (x # xs))
      else x # remove_all pat xs)"

text \<open>
  \<open>print_alert\<close> reads the chain and the address back from the lines it was given
  (a later line of the same kind overwrites an earlier one; both start as the empty
  string).  A chain line is the text \<open>Chain: \<close> followed by the value, and the only
  line that starts with \<open>Chain:\<close>; what is read back is that text with every occurrence
  of \<open>Chain: \<close> removed and the white space stripped at both ends, and likewise for
  the address.  Of the dictionary \<open>extra_info\<close> the two entries attached from the
  profile cache are kept; the entries parsed from the lines repeat what the lines
  carry and only shape the message text.
\<close>

fun parse_line :: "line \<Rightarrow> string \<times> string \<Rightarrow> string \<times> string" where
  "parse_line (Chain_line c) (chain_id, token_address)
     = (strip (remove_all ''Chain: '' (''Chain: '' @ c)), token_address)"
| "parse_line (Address_line a) (chain_id, token_address)
     = (chain_id, strip (remove_all ''Address: '' (''Address: '' @ a)))"
| "parse_line other ct = ct"

definition parse_lines :: "line list \<Rightarrow> string \<times> string" where
  "parse_lines lines = fold parse_line lines ([], [])"

definition attach_profile_data :: "state \<Rightarrow> string \<Rightarrow> string \<Rightarrow> extra_info" where
  "attach_profile_data s chain_id token_address =
     (if chain_id \<noteq> [] \<and> token_address \<noteq> [] then
        (case profile_headers s (chain_id, token_address) of
           None \<Rightarrow> []
         | Some header_img \<Rightarrow> if header_img \<noteq> [] then [(''header_image'', XStr header_img)] else [])
        @
        (case profile_socials s (chain_id, token_address) of
           None \<Rightarrow> []
         | Some social_links \<Rightarrow>
             if social_links \<noteq> [] then [(''social_links'', XLinks social_links)] else [])
      else [])"

definition print_alert :: "env \<Rightarrow> title \<Rightarrow> line list \<Rightarrow> state \<Rightarrow> state" where
  "print_alert e ttl lines s =
     (let s1 = s\<lparr>alerts := alerts s @ [(ttl, lines)]\<rparr> in
      if USE_TELEGRAM e then
        (let (chain_id, token_address) = parse_lines lines;
             extra = attach_profile_data s1 chain_id token_address;
             msg = Alert_message ttl lines extra;
             chart_url = format_telegram_alert_image (Some extra) chain_id token_address;
             (sent, s2) = send_telegram_photo e chart_url msg s1
         in if \<not> sent then snd (send_telegram_message e msg s2) else s2)
      else s1)"

subsection \<open>The change detectors\<close>

text \<open>
  Each detector is a \<open>for\<close> loop over the records of a feed.  The body of the loop is
  a function of its own (\<open>..._step\<close>); \<open>continue\<close> returns the state reached so far.
\<close>

definition process_ads_step :: "env \<Rightarrow> ad \<Rightarrow> state \<Rightarrow> state" where
  "process_ads_step e ad s =
     (if \<not> truthy_str (ad_chainId ad) \<or> \<not> truthy_str (ad_tokenAddress ad) then s
      else
        let chain_id = the (ad_chainId ad);
            token_address = the (ad_tokenAddress ad);
            s1 = s\<lparr>known_tokens := insert (chain_id, token_address) (known_tokens s)\<rparr>;
            key = (chain_id, token_address)
        in if key \<in> seen_ads s1 then s1
           else
             let s2 = s1\<lparr>seen_ads := insert key (seen_ads s1)\<rparr>;
                 s3 = s2\<lparr>stats := (stats s2)\<lparr>ads_detected := ads_detected (stats s2) + 1\<rparr>\<rparr>;
                 (token_info, s4) = get_token_info e chain_id token_address s3;
                 lines = [Type_line ''BANNER AD'',
                          Chain_line chain_id,
                          Token_line (info_name token_info) (info_symbol token_info),
                          Address_line token_address,
                          Started_line (ad_date ad),
                          Duration_line (ad_durationHours ad),
                          Price_line (info_price token_info),
                          Market_Cap_line (info_market_cap token_info)]
                         @ (if truthy_str (ad_url ad) then [URL_line (the (ad_url ad))] else []);
                 s5 = print_alert e NEW_AD lines s4
             in s5\<lparr>logged := logged s5 @ [Info_new_ad token_address chain_id]\<rparr>)"

definition process_ads :: "env \<Rightarrow> ad payload option \<Rightarrow> state \<Rightarrow> state" where
  "process_ads e ads s =
     (case ads of Some (JList records) \<Rightarrow> fold (process_ads_step e) records s | _ \<Rightarrow> s)"

definition profile_image :: "profile \<Rightarrow> string option" where
  "profile_image p =
     (if truthy_str (pf_openGraph p) then pf_openGraph p
      else if truthy_str (pf_header p) then pf_header p
      else if truthy_str (pf_icon p) then pf_icon p
      else None)"

definition truthy_links :: "link list option \<Rightarrow> bool" where
  "truthy_links l = (case l of None \<Rightarrow> False | Some ls \<Rightarrow> ls \<noteq> [])"

definition process_profiles_step :: "env \<Rightarrow> profile \<Rightarrow> state \<Rightarrow> state" where
  "process_profiles_step e p s =
     (if \<not> truthy_str (pf_chainId p) \<or> \<not> truthy_str (pf_tokenAddress p) then s
      else
        let chain_id = the (pf_chainId p);
            token_address = the (pf_tokenAddress p);
            key = (chain_id, token_address);
            s1 = s\<lparr>known_tokens := insert key (known_tokens s)\<rparr>;
            image_url = profile_image p;
            s2 = (if truthy_str image_url
                  then s1\<lparr>profile_headers := (profile_headers s1)(key \<mapsto> the image_url)\<rparr>
                  else s1);
            s3 = (if truthy_links (pf_links p)
                  then s2\<lparr>profile_socials := (profile_socials s2)(key \<mapsto> the (pf_links p))\<rparr>
                  else s2)
        in if key \<in> seen_profiles s3 then s3
           else
             let s4 = s3\<lparr>seen_profiles := insert key (seen_profiles s3)\<rparr>;
                 s5 = s4\<lparr>stats := (stats s4)\<lparr>orders_detected := orders_detected (stats s4) + 1\<rparr>\<rparr>;
                 (token_info, s6) = get_token_info e chain_id token_address s5;
                 lines = [Type_line ''TOKEN PROFILE'',
                          Chain_line chain_id,
                          Token_line (info_name token_info) (info_symbol token_info),
                          Address_line token_address,
                          Price_line (info_price token_info),
                          Market_Cap_line (info_market_cap token_info)]
                         @ (if truthy_str (pf_description p)
                            then [Description_line (take 100 (the (pf_description p)))] else [])
                         @ (if truthy_str (pf_url p) then [URL_line (the (pf_url p))] else []);
                 s7 = print_alert e NEW_TOKEN_PROFILE lines s6
             in s7\<lparr>logged := logged s7 @ [Info_new_profile token_address chain_id]\<rparr>)"

definition process_profiles :: "env \<Rightarrow> profile payload option \<Rightarrow> state \<Rightarrow> state" where
  "process_profiles e profiles s =
     (case profiles of
        Some (JList records) \<Rightarrow> fold (process_profiles_step e) records s
      | _ \<Rightarrow> s)"

definition get_or_0 :: "('k \<rightharpoonup> int) \<Rightarrow> 'k \<Rightarrow> int" where
  "get_or_0 m k = (case m k of None \<Rightarrow> 0 | Some v \<Rightarrow> v)"

definition process_boosts_step :: "env \<Rightarrow> boost \<Rightarrow> state \<Rightarrow> state" where
  "process_boosts_step e b s =
     (if \<not> truthy_str (bo_chainId b) \<or> \<not> truthy_str (bo_tokenAddress b)
         \<or> bo_totalAmount b = None then s
      else
        let chain_id = the (bo_chainId b);
            token_address = the (bo_tokenAddress b);
            total_amount = the (bo_totalAmount b);
            key = (chain_id, token_address);
            s1 = s\<lparr>known_tokens := insert key (known_tokens s)\<rparr>;
            previous_amount = get_or_0 (seen_boosts s1) token_address
        in if total_amount \<le> previous_amount then s1
           else
             let s2 = s1\<lparr>seen_boosts := (seen_boosts s1)(token_address \<mapsto> total_amount)\<rparr>;
                 s3 = s2\<lparr>stats := (stats s2)\<lparr>boosts_detected := boosts_detected (stats s2) + 1\<rparr>\<rparr>;
                 (token_info, s4) = get_token_info e chain_id token_address s3;
                 lines = [Type_line ''TOKEN BOOST'',
                          Chain_line chain_id,
                          Token_line (info_name token_info) (info_symbol token_info),
                          Address_line token_address,
                          New_Boost_line (bo_amount b) total_amount]
                         @ (if previous_amount > 0
                            then [Previous_line previous_amount (total_amount - previous_amount)]
                            else [])
                         @ [Price_line (info_price token_info),
                            Market_Cap_line (info_market_cap token_info)];
                 s5 = print_alert e NEW_BOOST lines s4
             in s5\<lparr>logged := logged s5 @ [Info_new_boost token_address chain_id total_amount]\<rparr>)"

definition process_boosts :: "env \<Rightarrow> boost payload option \<Rightarrow> state \<Rightarrow> state" where
  "process_boosts e boosts s =
     (case boosts of
        Some (JList records) \<Rightarrow> fold (process_boosts_step e) records s
      | _ \<Rightarrow> s)"

subsection \<open>The order checker\<close>

text \<open>
  The body of the inner loop of \<open>check_orders\<close>, for one order of one token.  The
  title and the type line carry the order type as it is; the source upper-cases it
  when it renders them.
\<close>

definition check_orders_order :: "env \<Rightarrow> string \<Rightarrow> string \<Rightarrow> paid_order \<Rightarrow> state \<Rightarrow> state" where
  "check_orders_order e chain_id token_address order s =
     (let payment_timestamp = (case od_paymentTimestamp order of None \<Rightarrow> 0 | Some t \<Rightarrow> t);
          bot_start_ms = BOT_START_MS e
      in if payment_timestamp < bot_start_ms then s
         else
           let last_seen = get_or_0 (seen_orders s) token_address
           in if payment_timestamp > last_seen then
                (let s1 = s\<lparr>seen_orders := (seen_orders s)(token_address \<mapsto> payment_timestamp)\<rparr>;
                     s2 = s1\<lparr>stats := (stats s1)\<lparr>orders_detected := orders_detected (stats s1) + 1\<rparr>\<rparr>;
                     (token_info, s3) = get_token_info e chain_id token_address s2;
                     order_type = (case od_type order of None \<Rightarrow> ''unknown'' | Some t \<Rightarrow> t);
                     status = (case od_status order of None \<Rightarrow> ''unknown'' | Some t \<Rightarrow> t);
                     lines = [Type_line (''PAID ORDER - '' @ order_type),
                              Chain_line chain_id,
                              Token_line (info_name token_info) (info_symbol token_info),
                              Address_line token_address,
                              Order_Type_line order_type,
                              Status_line status,
                              Paid_At_line payment_timestamp,
                              Price_line (info_price token_info),
                              Market_Cap_line (info_market_cap token_info)];
                     s4 = print_alert e (NEW_ORDER order_type) lines s3
                 in s4\<lparr>logged := logged s4 @ [Info_new_order token_address chain_id order_type]\<rparr>)
              else s)"

text \<open>The body of the outer loop: one known token.\<close>

definition check_orders_token :: "env \<Rightarrow> key \<Rightarrow> state \<Rightarrow> state" where
  "check_orders_token e k s =
     (let chain_id = fst k; token_address = snd k;
          (data, s1) = fetch_json (orders_api e (clock s) chain_id token_address) s
      in if \<not> truthy_doc data then s1
         else
           let orders = (case doc_orders (the data) of None \<Rightarrow> [] | Some os \<Rightarrow> os)
           in fold (check_orders_order e chain_id token_address) orders s1)"

text \<open>
  \<open>list(known_tokens)\<close> enumerates a Python set in an order the program does not
  control: the enumeration is the environment's \<open>snapshot\<close>.
\<close>

definition check_orders :: "env \<Rightarrow> state \<Rightarrow> state" where
  "check_orders e s = fold (check_orders_token e) (snapshot e (known_tokens s)) s"

subsection \<open>Start-up, the command listener and the driver loop\<close>

definition initialize_ad :: "ad \<Rightarrow> state \<Rightarrow> state" where
  "initialize_ad ad s =
     (if truthy_str (ad_chainId ad) \<and> truthy_str (ad_tokenAddress ad) then
        (let key = (the (ad_chainId ad), the (ad_tokenAddress ad))
         in s\<lparr>seen_ads := insert key (seen_ads s), known_tokens := insert key (known_tokens s)\<rparr>)
      else s)"

definition initialize_profile :: "profile \<Rightarrow> state \<Rightarrow> state" where
  "initialize_profile p s =
     (if truthy_str (pf_chainId p) \<and> truthy_str (pf_tokenAddress p) then
        (let key = (the (pf_chainId p), the (pf_tokenAddress p));
             s1 = s\<lparr>seen_profiles := insert key (seen_profiles s),
                     known_tokens := insert key (known_tokens s)\<rparr>;
             image_url = profile_image p;
             s2 = (if truthy_str image_url
                   then s1\<lparr>profile_headers := (profile_headers s1)(key \<mapsto> the image_url)\<rparr>
                   else s1)
         in if truthy_links (pf_links p)
            then s2\<lparr>profile_socials := (profile_socials s2)(key \<mapsto> the (pf_links p))\<rparr>
            else s2)
      else s)"

definition initialize_boost :: "boost \<Rightarrow> state \<Rightarrow> state" where
  "initialize_boost b s =
     (if truthy_str (bo_chainId b) \<and> truthy_str (bo_tokenAddress b)
         \<and> bo_totalAmount b \<noteq> None \<and> bo_totalAmount b \<noteq> Some 0 then
        s\<lparr>seen_boosts := (seen_boosts s)(the (bo_tokenAddress b) \<mapsto> the (bo_totalAmount b)),
          known_tokens := insert (the (bo_chainId b), the (bo_tokenAddress b)) (known_tokens s)\<rparr>
      else s)"

definition initialize_order :: "string \<Rightarrow> paid_order \<Rightarrow> state \<Rightarrow> state" where
  "initialize_order token_address order s =
     (let payment_timestamp = (case od_paymentTimestamp order of None \<Rightarrow> 0 | Some t \<Rightarrow> t)
      in if payment_timestamp \<noteq> 0
         then s\<lparr>seen_orders := (seen_orders s)(token_address \<mapsto>
                  max (get_or_0 (seen_orders s) token_address) payment_timestamp)\<rparr>
         else s)"

definition initialize_token :: "env \<Rightarrow> key \<Rightarrow> state \<Rightarrow> state" where
  "initialize_token e k s =
     (let (data, s1) = fetch_json (orders_api e (clock s) (fst k) (snd k)) s
      in if truthy_doc data
         then fold (initialize_order (snd k))
                (case doc_orders (the data) of None \<Rightarrow> [] | Some os \<Rightarrow> os) s1
         else s1)"

definition initialize_ads :: "env \<Rightarrow> state \<Rightarrow> state" where
  "initialize_ads e s =
     (let (ads, s1) = fetch_json (ads_api e (clock s)) s
      in case ads of Some (JList records) \<Rightarrow> fold initialize_ad records s1 | _ \<Rightarrow> s1)"

definition initialize_profiles :: "env \<Rightarrow> state \<Rightarrow> state" where
  "initialize_profiles e s =
     (let (profiles, s1) = fetch_json (profiles_api e (clock s)) s
      in case profiles of
           Some (JList records) \<Rightarrow> fold initialize_profile records s1
         | _ \<Rightarrow> s1)"

definition initialize_boosts :: "env \<Rightarrow> state \<Rightarrow> state" where
  "initialize_boosts e s =
     (let (boosts, s1) = fetch_json (boosts_api e (clock s)) s
      in case boosts of Some (JList records) \<Rightarrow> fold initialize_boost records s1 | _ \<Rightarrow> s1)"

definition initialize_orders :: "env \<Rightarrow> state \<Rightarrow> state" where
  "initialize_orders e s = fold (initialize_token e) (snapshot e (known_tokens s)) s"

text \<open>\<open>initialize\<close>: its four parts in the order of the source.\<close>

definition initialize :: "env \<Rightarrow> state \<Rightarrow> state" where
  "initialize e s =
     initialize_orders e (initialize_boosts e (initialize_profiles e (initialize_ads e s)))"

text \<open>
  The loop of \<open>handle_telegram_updates\<close> over the updates.  The Boolean tells whether
  an exception left the loop; the state is the one reached when it did.
\<close>

fun handle_updates :: "env \<Rightarrow> update list \<Rightarrow> state \<Rightarrow> bool \<times> state" where
  "handle_updates e [] s = (False, s)"
| "handle_updates e (u # us) s =
     (case up_text u of
        None \<Rightarrow> handle_updates e us s
      | Some text \<Rightarrow>
          if \<not> up_has_chat_id u then (True, s)
          else if take 6 text = ''/start'' then
            handle_updates e us (snd (send_telegram_message e Welcome_message s))
          else if take 7 text = ''/status'' then
            handle_updates e us
              (snd (send_telegram_message e
                      (Status_message (ads_detected (stats s)) (boosts_detected (stats s))
                         (orders_detected (stats s)) (polls (stats s))) s))
          else handle_updates e us s)"

text \<open>
  \<open>handle_telegram_updates\<close>: everything is inside one \<open>try\<close> whose handler is
  \<open>pass\<close>, so each exception ends the procedure with the state reached.  The GET that
  marks the updates as read follows the loop, under the same test of \<open>ok\<close> and
  \<open>result\<close>; its answer is not read.
\<close>

definition handle_telegram_updates :: "env \<Rightarrow> state \<Rightarrow> state" where
  "handle_telegram_updates e s =
     (if \<not> USE_TELEGRAM e then s
      else
        let s1 = s\<lparr>clock := clock s + 1\<rparr> in
        case updates_api e (clock s) of
          Raised ex \<Rightarrow> s1
        | Response status_code body \<Rightarrow>
            if status_code = 200 then
              (case body of
                 Inl ex \<Rightarrow> s1
               | Inr data \<Rightarrow>
                   if upd_ok data \<and> upd_result data \<noteq> None \<and> upd_result data \<noteq> Some []
                   then
                     (let result = the (upd_result data);
                          (raised, s2) = handle_updates e result s1
                      in if raised then s2
                         else if up_has_update_id (last result)
                         then s2\<lparr>clock := clock s2 + 1\<rparr>
                         else s2)
                   else s1)
            else s1)"

text \<open>
  One turn of the \<open>while True\<close> loop of \<open>main\<close>, in three parts: the poll counter
  with the command listener of every third turn, the three fetches, and the
  detectors with the order check of every fifth turn.  The status line of every
  tenth turn and the sleep change nothing of the state.
\<close>

definition begin_poll :: "env \<Rightarrow> state \<Rightarrow> state" where
  "begin_poll e s =
     (let s1 = s\<lparr>stats := (stats s)\<lparr>polls := polls (stats s) + 1\<rparr>\<rparr>
      in if polls (stats s1) mod 3 = 0 then handle_telegram_updates e s1 else s1)"

definition fetch_feeds ::
  "env \<Rightarrow> state \<Rightarrow>
   ad payload option \<times> profile payload option \<times> boost payload option \<times> state" where
  "fetch_feeds e s =
     (let (ads, s1) = fetch_json (ads_api e (clock s)) s;
          (profiles, s2) = fetch_json (profiles_api e (clock s1)) s1;
          (boosts, s3) = fetch_json (boosts_api e (clock s2)) s2
      in (ads, profiles, boosts, s3))"

definition process_feeds ::
  "env \<Rightarrow> ad payload option \<Rightarrow> profile payload option \<Rightarrow> boost payload option
   \<Rightarrow> state \<Rightarrow> state" where
  "process_feeds e ads profiles boosts s =
     (let s1 = (if truthy_payload ads then process_ads e ads s else s);
          s2 = (if truthy_payload profiles then process_profiles e profiles s1 else s1);
          s3 = (if truthy_payload boosts then process_boosts e boosts s2 else s2)
      in if polls (stats s3) mod 5 = 0 then check_orders e s3 else s3)"

definition poll_cycle :: "env \<Rightarrow> state \<Rightarrow> state" where
  "poll_cycle e s =
     (let (ads, profiles, boosts, s1) = fetch_feeds e (begin_poll e s)
      in process_feeds e ads profiles boosts s1)"

text \<open>
  \<open>main\<close> up to its interruption after \<open>n\<close> whole turns of the loop.
\<close>

definition main :: "env \<Rightarrow> nat \<Rightarrow> state" where
  "main e n =
     (let s0 = (if USE_TELEGRAM e then snd (send_telegram_message e Startup_message initial_state)
                else initial_state)
      in (poll_cycle e ^^ n) (initialize e s0))"

subsection \<open>What an alert shows\<close>

fun delta_of_line :: "line \<Rightarrow> (int \<times> int) list" where
  "delta_of_line (Previous_line previous delta) = [(previous, delta)]"
| "delta_of_line other = []"

fun total_of_line :: "line \<Rightarrow> int list" where
  "total_of_line (New_Boost_line amount tot) = [tot]"
| "total_of_line other = []"

fun paid_at_of_line :: "line \<Rightarrow> int list" where
  "paid_at_of_line (Paid_At_line t) = [t]"
| "paid_at_of_line other = []"

definition reported_deltas :: "alert \<Rightarrow> (int \<times> int) list" where
  "reported_deltas a = concat (map delta_of_line (snd a))"

definition reported_totals :: "alert \<Rightarrow> int list" where
  "reported_totals a = concat (map total_of_line (snd a))"

definition reported_paid_at :: "alert \<Rightarrow> int list" where
  "reported_paid_at a = concat (map paid_at_of_line (snd a))"

text \<open>
  The token an alert is shown for: the values that its last chain line and its last
  address line carry.
\<close>

fun shown_line :: "line \<Rightarrow> string \<times> string \<Rightarrow> string \<times> string" where
  "shown_line (Chain_line c) (chain_id, token_address) = (c, token_address)"
| "shown_line (Address_line a) (chain_id, token_address) = (chain_id, a)"
| "shown_line other ct = ct"

definition shown_key :: "line list \<Rightarrow> key" where
  "shown_key lines = fold shown_line lines ([], [])"

definition alert_key :: "alert \<Rightarrow> key" where
  "alert_key a = shown_key (snd a)"

fun is_order_title :: "title \<Rightarrow> bool" where
  "is_order_title (NEW_ORDER t) = True"
| "is_order_title other = False"

definition count_alerts :: "(title \<Rightarrow> bool) \<Rightarrow> state \<Rightarrow> nat" where
  "count_alerts P s = length (filter (\<lambda>a. P (fst a)) (alerts s))"

definition new_alerts :: "state \<Rightarrow> state \<Rightarrow> alert list" where
  "new_alerts s s' = drop (length (alerts s)) (alerts s')"

text \<open>What the claims read off an alert: its title, its token, the totals and the deltas it shows.\<close>

definition alert_view :: "alert \<Rightarrow> title \<times> key \<times> int list \<times> (int \<times> int) list" where
  "alert_view a = (fst a, alert_key a, reported_totals a, reported_deltas a)"

text \<open>
  An environment for the concrete runs below: Telegram is not configured, every GET
  is answered with HTTP 500, the process started at millisecond 1000.
\<close>

definition offline_env :: env where
  "offline_env =
     \<lparr>USE_TELEGRAM = False, BOT_START_MS = 1000,
      ads_api = (\<lambda>n. Response 500 (Inl JSONDecodeError)),
      profiles_api = (\<lambda>n. Response 500 (Inl JSONDecodeError)),
      boosts_api = (\<lambda>n. Response 500 (Inl JSONDecodeError)),
      tokens_api = (\<lambda>n c t. Response 500 (Inl JSONDecodeError)),
      orders_api = (\<lambda>n c t. Response 500 (Inl JSONDecodeError)),
      telegram_api = (\<lambda>n r. Response 500 (Inr ())),
      updates_api = (\<lambda>n. Raised RequestException),
      snapshot = (\<lambda>S. filter (\<lambda>k. k \<in> S) [(''solana'', ''TokenA''), (''bsc'', ''TokenB'')])\<rparr>"

definition boost_of :: "string \<Rightarrow> string \<Rightarrow> int \<Rightarrow> boost" where
  "boost_of c t n = \<lparr>bo_chainId = Some c, bo_tokenAddress = Some t,
                     bo_totalAmount = Some n, bo_amount = None\<rparr>"

text \<open>Whether the POST issued as the \<open>n\<close>-th network call is answered with status 200.\<close>

definition post_ok :: "env \<Rightarrow> nat \<Rightarrow> request \<Rightarrow> bool" where
  "post_ok e n r = (case telegram_api e n r of Response status_code body \<Rightarrow> status_code = 200
                    | Raised ex \<Rightarrow> False)"

subsection \<open>format\_price\<close>

text \<open>
  The argument of the model is what \<open>float(price)\<close> does with the argument of the source:
  it raises (\<open>Inl\<close>; a \<open>TypeError\<close> for \<open>None\<close>, a \<open>ValueError\<close> for a text that is no number),
  or it returns a float.  A text such as \<open>'1e999'\<close> or \<open>'inf'\<close> is read as the infinity
  and \<open>'nan'\<close> as NaN, without an exception.
\<close>

text \<open>Rounding to the nearest integer, a tie going to the even neighbour.\<close>

definition round_half_even :: "rat \<Rightarrow> int" where
  "round_half_even x =
     (let f = \<lfloor>x\<rfloor>; r = x - of_int f
      in if r < 1 / 2 then f else if 1 / 2 < r then f + 1 else if even f then f else f + 1)"

text \<open>The decimal digits of a natural number, most significant first.\<close>

definition digit_char :: "nat \<Rightarrow> char" where
  "digit_char d = ''0123456789'' ! d"

fun digits :: "nat \<Rightarrow> string" where
  "digits n = (if n < 10 then [digit_char n] else digits (n div 10) @ [digit_char (n mod 10)])"

declare digits.simps [simp del]

definition zero_pad :: "nat \<Rightarrow> string \<Rightarrow> string" where
  "zero_pad w s = replicate (w - length s) CHR ''0'' @ s"

text \<open>A comma before every group of three digits, counted from the right.\<close>

fun commas_rev :: "string \<Rightarrow> string" where
  "commas_rev (a # b # c # d # rest) = a # b # c # CHR '','' # commas_rev (d # rest)"
| "commas_rev s = s"

definition group_thousands :: "string \<Rightarrow> string" where
  "group_thousands s = rev (commas_rev (rev s))"

text \<open>
  A Python float: a finite double other than the negative zero, given by the rational
  number it denotes exactly (Python formats the exact value of a double, correctly
  rounded, a tie going to the even digit), or one of the four special values.
\<close>

datatype pyfloat = Finite rat | Neg_zero | Pos_inf | Neg_inf | NaN

text \<open>The comparison \<open>p >= 1\<close>.\<close>

fun float_ge_1 :: "pyfloat \<Rightarrow> bool" where
  "float_ge_1 (Finite x) = (1 \<le> x)"
| "float_ge_1 Pos_inf = True"
| "float_ge_1 other = False"

text \<open>
  \<open>format(p, '.df')\<close> and \<open>format(p, ',.df')\<close> for \<open>d > 0\<close>.  A finite value gives its sign,
  the digits of its absolute value rounded to \<open>d\<close> decimals, the point and \<open>d\<close>
  decimals.
\<close>

definition scaled :: "nat \<Rightarrow> rat \<Rightarrow> nat" where
  "scaled d x = nat (round_half_even (x * 10 ^ d))"

definition sign_str :: "rat \<Rightarrow> string" where
  "sign_str x = (if x < 0 then ''-'' else [])"

fun format_f :: "nat \<Rightarrow> pyfloat \<Rightarrow> string" where
  "format_f d (Finite x) =
     (let n = scaled d \<bar>x\<bar>
      in sign_str x @ digits (n div 10 ^ d) @ ''.'' @ zero_pad d (digits (n mod 10 ^ d)))"
| "format_f d Neg_zero = ''-'' @ digits 0 @ ''.'' @ zero_pad d (digits 0)"
| "format_f d Pos_inf = ''inf''"
| "format_f d Neg_inf = ''-inf''"
| "format_f d NaN = ''nan''"

fun format_grouped_f :: "nat \<Rightarrow> pyfloat \<Rightarrow> string" where
  "format_grouped_f d (Finite x) =
     (let n = scaled d \<bar>x\<bar>
      in sign_str x @ group_thousands (digits (n div 10 ^ d)) @ ''.''
         @ zero_pad d (digits (n mod 10 ^ d)))"
| "format_grouped_f d Neg_zero =
     ''-'' @ group_thousands (digits 0) @ ''.'' @ zero_pad d (digits 0)"
| "format_grouped_f d Pos_inf = ''inf''"
| "format_grouped_f d Neg_inf = ''-inf''"
| "format_grouped_f d NaN = ''nan''"

text \<open>\<open>s.rstrip(c)\<close> for a single character \<open>c\<close>.\<close>

definition rstrip :: "char \<Rightarrow> string \<Rightarrow> string" where
  "rstrip c s = rev (dropWhile (\<lambda>x. x = c) (rev s))"

text \<open>
  The body of the \<open>try\<close> block of \<open>format_price\<close>, then the function with its bare
  \<open>except\<close>, which takes every exception.
\<close>

definition format_price_try :: "exn + pyfloat \<Rightarrow> exn + string" where
  "format_price_try price =
     (case price of
        Inl ex \<Rightarrow> Inl ex
      | Inr p \<Rightarrow>
          if float_ge_1 p then Inr (format_grouped_f 2 p)
          else Inr (rstrip CHR ''.'' (rstrip CHR ''0'' (format_f 8 p))))"

definition format_price :: "exn + pyfloat \<Rightarrow> string" where
  "format_price price = (case format_price_try price of Inl ex \<Rightarrow> ''N/A'' | Inr s \<Rightarrow> s)"

text \<open>
  What the specification says of the output, in its words: the number a string of
  digits denotes, and a string that is another one grouped by thousands (the same
  characters with a comma after every third one counted from the right, none in
  front).
\<close>

definition digit_value :: "char \<Rightarrow> nat" where
  "digit_value c = length (takeWhile (\<lambda>x. x \<noteq> c) ''0123456789'')"

definition decimal_value :: "string \<Rightarrow> nat" where
  "decimal_value s = foldl (\<lambda>a c. 10 * a + digit_value c) 0 s"

definition grouped_by_three :: "string \<Rightarrow> string \<Rightarrow> bool" where
  "grouped_by_three r s =
     (filter (\<lambda>c. c \<noteq> CHR '','') r = s
      \<and> (\<forall>i \<in> set [0..<length r]. (r ! (length r - 1 - i) = CHR '','') = (i mod 4 = 3))
      \<and> (r \<noteq> [] \<longrightarrow> hd r \<noteq> CHR '',''))"

text \<open>
  The same environment with Telegram configured and answering every POST with
  HTTP 500.
\<close>

definition telegram_down_env :: env where
  "telegram_down_env = offline_env\<lparr>USE_TELEGRAM := True\<rparr>"

definition ad_of :: "string \<Rightarrow> string \<Rightarrow> ad" where
  "ad_of c t = \<lparr>ad_chainId = Some c, ad_tokenAddress = Some t, ad_date = None,
                ad_durationHours = None, ad_url = None\<rparr>"

definition profile_of :: "string \<Rightarrow> string \<Rightarrow> string option \<Rightarrow> link list option \<Rightarrow> profile" where
  "profile_of c t header links =
     \<lparr>pf_chainId = Some c, pf_tokenAddress = Some t, pf_openGraph = None, pf_header = header,
      pf_icon = None, pf_links = links, pf_description = None, pf_url = None\<rparr>"

definition order_at :: "int \<Rightarrow> paid_order" where
  "order_at t = \<lparr>od_paymentTimestamp = Some t, od_type = None, od_status = None\<rparr>"

subsection \<open>Predicates of the claims\<close>

definition ad_valid :: "ad \<Rightarrow> bool" where
  "ad_valid a = (truthy_str (ad_chainId a) \<and> truthy_str (ad_tokenAddress a))"

definition ad_key :: "ad \<Rightarrow> key" where
  "ad_key a = (the (ad_chainId a), the (ad_tokenAddress a))"

definition profile_valid :: "profile \<Rightarrow> bool" where
  "profile_valid p = (truthy_str (pf_chainId p) \<and> truthy_str (pf_tokenAddress p))"

definition profile_key :: "profile \<Rightarrow> key" where
  "profile_key p = (the (pf_chainId p), the (pf_tokenAddress p))"

definition boost_valid :: "boost \<Rightarrow> bool" where
  "boost_valid b = (truthy_str (bo_chainId b) \<and> truthy_str (bo_tokenAddress b)
                    \<and> bo_totalAmount b \<noteq> None)"

definition boost_key :: "boost \<Rightarrow> key" where
  "boost_key b = (the (bo_chainId b), the (bo_tokenAddress b))"

definition stats_match :: "state \<Rightarrow> bool" where
  "stats_match s =
     (ads_detected (stats s) = count_alerts (\<lambda>t. t = NEW_AD) s
      \<and> boosts_detected (stats s) = count_alerts (\<lambda>t. t = NEW_BOOST) s
      \<and> orders_detected (stats s)
          = count_alerts is_order_title s + count_alerts (\<lambda>t. t = NEW_TOKEN_PROFILE) s)"

definition titled :: "state \<Rightarrow> (title \<times> key) list" where
  "titled s = map (\<lambda>a. (fst a, alert_key a)) (alerts s)"

definition order_ts :: "paid_order \<Rightarrow> int" where
  "order_ts order = (case od_paymentTimestamp order of None \<Rightarrow> 0 | Some t \<Rightarrow> t)"

definition order_type_of :: "paid_order \<Rightarrow> string" where
  "order_type_of order = (case od_type order of None \<Rightarrow> ''unknown'' | Some t \<Rightarrow> t)"

definition reportable :: "env \<Rightarrow> state \<Rightarrow> string \<Rightarrow> paid_order \<Rightarrow> bool" where
  "reportable e s token_address order =
     (BOT_START_MS e \<le> order_ts order \<and> get_or_0 (seen_orders s) token_address < order_ts order)"

definition grows :: "state \<Rightarrow> state \<Rightarrow> bool" where
  "grows s s' = (known_tokens s \<subseteq> known_tokens s' \<and> seen_ads s \<subseteq> seen_ads s'
                 \<and> seen_profiles s \<subseteq> seen_profiles s')"

definition quiet :: "state \<Rightarrow> state \<Rightarrow> bool" where
  "quiet s s' = (alerts s' = alerts s \<and> ads_detected (stats s') = ads_detected (stats s)
                 \<and> boosts_detected (stats s') = boosts_detected (stats s)
                 \<and> orders_detected (stats s') = orders_detected (stats s))"

section \<open>What the procedures leave untouched\<close>

lemma fetch_json_frame [simp]:
  "seen_ads (snd (fetch_json r s)) = seen_ads s"
  "seen_boosts (snd (fetch_json r s)) = seen_boosts s"
  "seen_orders (snd (fetch_json r s)) = seen_orders s"
  "seen_profiles (snd (fetch_json r s)) = seen_profiles s"
  "profile_headers (snd (fetch_json r s)) = profile_headers s"
  "profile_socials (snd (fetch_json r s)) = profile_socials s"
  "known_tokens (snd (fetch_json r s)) = known_tokens s"
  "alerts (snd (fetch_json r s)) = alerts s"
  "outbox (snd (fetch_json r s)) = outbox s"
  "logged (snd (fetch_json r s)) = logged s"
  "clock (snd (fetch_json r s)) = clock s + 1"
  "polls (stats (snd (fetch_json r s))) = polls (stats s)"
  "ads_detected (stats (snd (fetch_json r s))) = ads_detected (stats s)"
  "boosts_detected (stats (snd (fetch_json r s))) = boosts_detected (stats s)"
  "orders_detected (stats (snd (fetch_json r s))) = orders_detected (stats s)"
  by (simp_all add: fetch_json_def Let_def split: sum.splits)

lemma get_token_info_snd: "snd (get_token_info e c t s) = snd (fetch_json (tokens_api e (clock s) c t) s)"
  by (simp add: get_token_info_def case_prod_beta Let_def split: option.splits payload.splits list.splits)

lemma get_token_info_frame [simp]:
  "seen_ads (snd (get_token_info e c t s)) = seen_ads s"
  "seen_boosts (snd (get_token_info e c t s)) = seen_boosts s"
  "seen_orders (snd (get_token_info e c t s)) = seen_orders s"
  "seen_profiles (snd (get_token_info e c t s)) = seen_profiles s"
  "profile_headers (snd (get_token_info e c t s)) = profile_headers s"
  "profile_socials (snd (get_token_info e c t s)) = profile_socials s"
  "known_tokens (snd (get_token_info e c t s)) = known_tokens s"
  "alerts (snd (get_token_info e c t s)) = alerts s"
  "outbox (snd (get_token_info e c t s)) = outbox s"
  "logged (snd (get_token_info e c t s)) = logged s"
  "clock (snd (get_token_info e c t s)) = clock s + 1"
  "polls (stats (snd (get_token_info e c t s))) = polls (stats s)"
  "ads_detected (stats (snd (get_token_info e c t s))) = ads_detected (stats s)"
  "boosts_detected (stats (snd (get_token_info e c t s))) = boosts_detected (stats s)"
  "orders_detected (stats (snd (get_token_info e c t s))) = orders_detected (stats s)"
  by (simp_all add: get_token_info_snd)

lemma send_telegram_message_frame [simp]:
  "stats (snd (send_telegram_message e m s)) = stats s"
  "seen_ads (snd (send_telegram_message e m s)) = seen_ads s"
  "seen_boosts (snd (send_telegram_message e m s)) = seen_boosts s"
  "seen_orders (snd (send_telegram_message e m s)) = seen_orders s"
  "seen_profiles (snd (send_telegram_message e m s)) = seen_profiles s"
  "profile_headers (snd (send_telegram_message e m s)) = profile_headers s"
  "profile_socials (snd (send_telegram_message e m s)) = profile_socials s"
  "known_tokens (snd (send_telegram_message e m s)) = known_tokens s"
  "alerts (snd (send_telegram_message e m s)) = alerts s"
  by (simp_all add: send_telegram_message_def Let_def split: http.splits)

lemma send_telegram_photo_frame [simp]:
  "stats (snd (send_telegram_photo e u m s)) = stats s"
  "seen_ads (snd (send_telegram_photo e u m s)) = seen_ads s"
  "seen_boosts (snd (send_telegram_photo e u m s)) = seen_boosts s"
  "seen_orders (snd (send_telegram_photo e u m s)) = seen_orders s"
  "seen_profiles (snd (send_telegram_photo e u m s)) = seen_profiles s"
  "profile_headers (snd (send_telegram_photo e u m s)) = profile_headers s"
  "profile_socials (snd (send_telegram_photo e u m s)) = profile_socials s"
  "known_tokens (snd (send_telegram_photo e u m s)) = known_tokens s"
  "alerts (snd (send_telegram_photo e u m s)) = alerts s"
  by (simp_all add: send_telegram_photo_def Let_def split: http.splits)

lemma print_alert_frame [simp]:
  "stats (print_alert e t l s) = stats s"
  "seen_ads (print_alert e t l s) = seen_ads s"
  "seen_boosts (print_alert e t l s) = seen_boosts s"
  "seen_orders (print_alert e t l s) = seen_orders s"
  "seen_profiles (print_alert e t l s) = seen_profiles s"
  "profile_headers (print_alert e t l s) = profile_headers s"
  "profile_socials (print_alert e t l s) = profile_socials s"
  "known_tokens (print_alert e t l s) = known_tokens s"
  "alerts (print_alert e t l s) = alerts s @ [(t, l)]"
  by (simp_all add: print_alert_def Let_def case_prod_beta)

lemma shown_key_simps [simp]:
  "shown_key (Type_line x # Chain_line c # Token_line a b # Address_line t # rest)
     = fold shown_line rest (c, t)"
  by (simp add: shown_key_def)

lemma process_boosts_step_skip:
  "\<not> truthy_str (bo_chainId b) \<or> \<not> truthy_str (bo_tokenAddress b) \<or> bo_totalAmount b = None
   \<Longrightarrow> process_boosts_step e b s = s"
  by (auto simp add: process_boosts_step_def)

lemma process_boosts_step_quiet:
  assumes "bo_chainId b = Some c" "c \<noteq> []" "bo_tokenAddress b = Some t" "t \<noteq> []"
    "bo_totalAmount b = Some n" "n \<le> get_or_0 (seen_boosts s) t"
  shows "process_boosts_step e b s = s\<lparr>known_tokens := insert (c, t) (known_tokens s)\<rparr>"
  using assms by (simp add: process_boosts_step_def Let_def)

lemma process_boosts_step_fire:
  assumes "bo_chainId b = Some c" "c \<noteq> []" "bo_tokenAddress b = Some t" "t \<noteq> []"
    "bo_totalAmount b = Some n" "get_or_0 (seen_boosts s) t < n"
  shows "seen_boosts (process_boosts_step e b s) = (seen_boosts s)(t \<mapsto> n)"
    and "boosts_detected (stats (process_boosts_step e b s)) = boosts_detected (stats s) + 1"
    and "ads_detected (stats (process_boosts_step e b s)) = ads_detected (stats s)"
    and "orders_detected (stats (process_boosts_step e b s)) = orders_detected (stats s)"
    and "\<exists>a. alerts (process_boosts_step e b s) = alerts s @ [a] \<and> fst a = NEW_BOOST
             \<and> alert_key a = (c, t) \<and> reported_totals a = [n]
             \<and> reported_deltas a =
                 (if 0 < get_or_0 (seen_boosts s) t
                  then [(get_or_0 (seen_boosts s) t, n - get_or_0 (seen_boosts s) t)] else [])"
  using assms
  by (simp_all add: process_boosts_step_def Let_def case_prod_beta alert_key_def
        reported_totals_def reported_deltas_def)

lemma process_boosts_step_view:
  assumes "bo_chainId b = Some c" "c \<noteq> []" "bo_tokenAddress b = Some t" "t \<noteq> []"
    "bo_totalAmount b = Some n"
  shows "map alert_view (alerts (process_boosts_step e b s)) =
           map alert_view (alerts s) @
           (if get_or_0 (seen_boosts s) t < n
            then [(NEW_BOOST, (c, t), [n],
                   if 0 < get_or_0 (seen_boosts s) t
                   then [(get_or_0 (seen_boosts s) t, n - get_or_0 (seen_boosts s) t)] else [])]
            else [])"
    and "get_or_0 (seen_boosts (process_boosts_step e b s)) t = max (get_or_0 (seen_boosts s) t) n"
proof -
  show "map alert_view (alerts (process_boosts_step e b s)) =
           map alert_view (alerts s) @
           (if get_or_0 (seen_boosts s) t < n
            then [(NEW_BOOST, (c, t), [n],
                   if 0 < get_or_0 (seen_boosts s) t
                   then [(get_or_0 (seen_boosts s) t, n - get_or_0 (seen_boosts s) t)] else [])]
            else [])"
  proof (cases "get_or_0 (seen_boosts s) t < n")
    case True
    from process_boosts_step_fire(5)[OF assms True, of e]
    obtain a where "alerts (process_boosts_step e b s) = alerts s @ [a]" "fst a = NEW_BOOST"
      "alert_key a = (c, t)" "reported_totals a = [n]"
      "reported_deltas a = (if 0 < get_or_0 (seen_boosts s) t
                  then [(get_or_0 (seen_boosts s) t, n - get_or_0 (seen_boosts s) t)] else [])"
      by blast
    then show ?thesis using True by (simp add: alert_view_def)
  next
    case False
    then have "n \<le> get_or_0 (seen_boosts s) t" by simp
    from process_boosts_step_quiet[OF assms this, of e] False show ?thesis by simp
  qed
  show "get_or_0 (seen_boosts (process_boosts_step e b s)) t = max (get_or_0 (seen_boosts s) t) n"
  proof (cases "get_or_0 (seen_boosts s) t < n")
    case True
    from process_boosts_step_fire(1)[OF assms True, of e] True show ?thesis
      by (simp add: get_or_0_def)
  next
    case False
    then have "n \<le> get_or_0 (seen_boosts s) t" by simp
    from process_boosts_step_quiet[OF assms this, of e] False show ?thesis by simp
  qed
qed

lemma process_boosts_single [simp]:
  "process_boosts e (Some (JList [b])) s = process_boosts_step e b s"
  by (simp add: process_boosts_def)

lemma new_alerts_view:
  "map alert_view (alerts s') = map alert_view (alerts s) @ L \<Longrightarrow>
   map alert_view (new_alerts s s') = L"
proof -
  assume h: "map alert_view (alerts s') = map alert_view (alerts s) @ L"
  have "map alert_view (new_alerts s s') = drop (length (alerts s)) (map alert_view (alerts s'))"
    by (simp add: new_alerts_def drop_map)
  also have "\<dots> = L" by (simp add: h)
  finally show ?thesis .
qed

lemma boost_sequence_view:
  assumes c: "c \<noteq> []" and t: "t \<noteq> []" and unseen: "seen_boosts s t = None"
  shows "map alert_view (new_alerts s
            (fold (\<lambda>n. process_boosts e (Some (JList [boost_of c t n]))) [5, 5, 12, 12, 20] s))
         = [(NEW_BOOST, (c, t), [5], []),
            (NEW_BOOST, (c, t), [12], [(5, 7)]),
            (NEW_BOOST, (c, t), [20], [(12, 8)])]"
    and "seen_boosts (fold (\<lambda>n. process_boosts e (Some (JList [boost_of c t n]))) [5, 5, 12, 12, 20] s) t
         = Some 20"
proof -
  have v: "\<And>n. bo_chainId (boost_of c t n) = Some c" "\<And>n. bo_tokenAddress (boost_of c t n) = Some t"
    "\<And>n. bo_totalAmount (boost_of c t n) = Some n"
    by (simp_all add: boost_of_def)
  define s1 where "s1 = process_boosts_step e (boost_of c t 5) s"
  define s2 where "s2 = process_boosts_step e (boost_of c t 5) s1"
  define s3 where "s3 = process_boosts_step e (boost_of c t 12) s2"
  define s4 where "s4 = process_boosts_step e (boost_of c t 12) s3"
  define s5 where "s5 = process_boosts_step e (boost_of c t 20) s4"
  have p0: "get_or_0 (seen_boosts s) t = 0" using unseen by (simp add: get_or_0_def)
  note sv = process_boosts_step_view[OF v(1) c v(2) t v(3)]
  have p1: "get_or_0 (seen_boosts s1) t = 5" unfolding s1_def using sv(2)[of e 5 s] p0 by simp
  have a1: "map alert_view (alerts s1) = map alert_view (alerts s) @ [(NEW_BOOST, (c, t), [5], [])]"
    unfolding s1_def using sv(1)[of e 5 s] p0 by simp
  have p2: "get_or_0 (seen_boosts s2) t = 5" unfolding s2_def using sv(2)[of e 5 s1] p1 by simp
  have a2: "map alert_view (alerts s2) = map alert_view (alerts s1)"
    unfolding s2_def using sv(1)[of e 5 s1] p1 by simp
  have p3: "get_or_0 (seen_boosts s3) t = 12" unfolding s3_def using sv(2)[of e 12 s2] p2 by simp
  have a3: "map alert_view (alerts s3) = map alert_view (alerts s2) @ [(NEW_BOOST, (c, t), [12], [(5, 7)])]"
    unfolding s3_def using sv(1)[of e 12 s2] p2 by simp
  have p4: "get_or_0 (seen_boosts s4) t = 12" unfolding s4_def using sv(2)[of e 12 s3] p3 by simp
  have a4: "map alert_view (alerts s4) = map alert_view (alerts s3)"
    unfolding s4_def using sv(1)[of e 12 s3] p3 by simp
  have a5: "map alert_view (alerts s5) = map alert_view (alerts s4) @ [(NEW_BOOST, (c, t), [20], [(12, 8)])]"
    unfolding s5_def using sv(1)[of e 20 s4] p4 by simp
  have f5: "seen_boosts s5 t = Some 20"
    unfolding s5_def using process_boosts_step_fire(1)[OF v(1) c v(2) t v(3), of s4 20 e] p4 by simp
  have run: "fold (\<lambda>n. process_boosts e (Some (JList [boost_of c t n]))) [5, 5, 12, 12, 20] s = s5"
    by (simp add: s1_def s2_def s3_def s4_def s5_def)
  have "map alert_view (alerts s5) = map alert_view (alerts s) @
          [(NEW_BOOST, (c, t), [5], []), (NEW_BOOST, (c, t), [12], [(5, 7)]),
           (NEW_BOOST, (c, t), [20], [(12, 8)])]"
    by (simp add: a1 a2 a3 a4 a5)
  from new_alerts_view[OF this] run
  show "map alert_view (new_alerts s
            (fold (\<lambda>n. process_boosts e (Some (JList [boost_of c t n]))) [5, 5, 12, 12, 20] s))
         = [(NEW_BOOST, (c, t), [5], []),
            (NEW_BOOST, (c, t), [12], [(5, 7)]),
            (NEW_BOOST, (c, t), [20], [(12, 8)])]" by simp
  from f5 run show "seen_boosts (fold (\<lambda>n. process_boosts e (Some (JList [boost_of c t n]))) [5, 5, 12, 12, 20] s) t
         = Some 20" by simp
qed

lemma count_alerts_titled: "count_alerts P s = length (filter (\<lambda>x. P (fst x)) (titled s))"
  by (simp add: count_alerts_def titled_def filter_map comp_def)

lemma titled_frame: "alerts s' = alerts s \<Longrightarrow> titled s' = titled s"
  by (simp add: titled_def)

lemma process_ads_step_fields:
  "known_tokens (process_ads_step e a s)
     = (if ad_valid a then insert (ad_key a) (known_tokens s) else known_tokens s)"
  "seen_ads (process_ads_step e a s)
     = (if ad_valid a then insert (ad_key a) (seen_ads s) else seen_ads s)"
  "seen_boosts (process_ads_step e a s) = seen_boosts s"
  "seen_orders (process_ads_step e a s) = seen_orders s"
  "seen_profiles (process_ads_step e a s) = seen_profiles s"
  "profile_headers (process_ads_step e a s) = profile_headers s"
  "profile_socials (process_ads_step e a s) = profile_socials s"
  "polls (stats (process_ads_step e a s)) = polls (stats s)"
  "ads_detected (stats (process_ads_step e a s))
     = ads_detected (stats s) + (if ad_valid a \<and> ad_key a \<notin> seen_ads s then 1 else 0)"
  "boosts_detected (stats (process_ads_step e a s)) = boosts_detected (stats s)"
  "orders_detected (stats (process_ads_step e a s)) = orders_detected (stats s)"
  "titled (process_ads_step e a s)
     = titled s @ (if ad_valid a \<and> ad_key a \<notin> seen_ads s then [(NEW_AD, ad_key a)] else [])"
  by (auto simp add: process_ads_step_def Let_def case_prod_beta ad_valid_def ad_key_def
        titled_def alert_key_def)

lemma process_profiles_step_fields:
  "known_tokens (process_profiles_step e p s)
     = (if profile_valid p then insert (profile_key p) (known_tokens s) else known_tokens s)"
  "seen_profiles (process_profiles_step e p s)
     = (if profile_valid p then insert (profile_key p) (seen_profiles s) else seen_profiles s)"
  "seen_boosts (process_profiles_step e p s) = seen_boosts s"
  "seen_orders (process_profiles_step e p s) = seen_orders s"
  "seen_ads (process_profiles_step e p s) = seen_ads s"
  "profile_headers (process_profiles_step e p s)
     = (if profile_valid p \<and> truthy_str (profile_image p)
        then (profile_headers s)(profile_key p \<mapsto> the (profile_image p))
        else profile_headers s)"
  "profile_socials (process_profiles_step e p s)
     = (if profile_valid p \<and> truthy_links (pf_links p)
        then (profile_socials s)(profile_key p \<mapsto> the (pf_links p))
        else profile_socials s)"
  "polls (stats (process_profiles_step e p s)) = polls (stats s)"
  "ads_detected (stats (process_profiles_step e p s)) = ads_detected (stats s)"
  "boosts_detected (stats (process_profiles_step e p s)) = boosts_detected (stats s)"
  "orders_detected (stats (process_profiles_step e p s))
     = orders_detected (stats s)
       + (if profile_valid p \<and> profile_key p \<notin> seen_profiles s then 1 else 0)"
  "titled (process_profiles_step e p s)
     = titled s @ (if profile_valid p \<and> profile_key p \<notin> seen_profiles s
                   then [(NEW_TOKEN_PROFILE, profile_key p)] else [])"
  by (auto simp add: process_profiles_step_def Let_def case_prod_beta profile_valid_def
        profile_key_def titled_def alert_key_def)

lemma process_boosts_step_fields:
  "known_tokens (process_boosts_step e b s)
     = (if boost_valid b then insert (boost_key b) (known_tokens s) else known_tokens s)"
  "seen_profiles (process_boosts_step e b s) = seen_profiles s"
  "seen_boosts (process_boosts_step e b s)
     = (if boost_valid b \<and> get_or_0 (seen_boosts s) (snd (boost_key b)) < the (bo_totalAmount b)
        then (seen_boosts s)(snd (boost_key b) \<mapsto> the (bo_totalAmount b))
        else seen_boosts s)"
  "seen_orders (process_boosts_step e b s) = seen_orders s"
  "seen_ads (process_boosts_step e b s) = seen_ads s"
  "profile_headers (process_boosts_step e b s) = profile_headers s"
  "profile_socials (process_boosts_step e b s) = profile_socials s"
  "polls (stats (process_boosts_step e b s)) = polls (stats s)"
  "ads_detected (stats (process_boosts_step e b s)) = ads_detected (stats s)"
  "boosts_detected (stats (process_boosts_step e b s))
     = boosts_detected (stats s)
       + (if boost_valid b \<and> get_or_0 (seen_boosts s) (snd (boost_key b)) < the (bo_totalAmount b)
          then 1 else 0)"
  "orders_detected (stats (process_boosts_step e b s)) = orders_detected (stats s)"
  "titled (process_boosts_step e b s)
     = titled s @ (if boost_valid b \<and> get_or_0 (seen_boosts s) (snd (boost_key b)) < the (bo_totalAmount b)
                   then [(NEW_BOOST, boost_key b)] else [])"
  by (auto simp add: process_boosts_step_def Let_def case_prod_beta boost_valid_def
        boost_key_def titled_def alert_key_def)

lemma check_orders_order_fields:
  "known_tokens (check_orders_order e c t order s) = known_tokens s"
  "seen_profiles (check_orders_order e c t order s) = seen_profiles s"
  "seen_boosts (check_orders_order e c t order s) = seen_boosts s"
  "seen_orders (check_orders_order e c t order s)
     = (if reportable e s t order then (seen_orders s)(t \<mapsto> order_ts order) else seen_orders s)"
  "seen_ads (check_orders_order e c t order s) = seen_ads s"
  "profile_headers (check_orders_order e c t order s) = profile_headers s"
  "profile_socials (check_orders_order e c t order s) = profile_socials s"
  "polls (stats (check_orders_order e c t order s)) = polls (stats s)"
  "ads_detected (stats (check_orders_order e c t order s)) = ads_detected (stats s)"
  "boosts_detected (stats (check_orders_order e c t order s)) = boosts_detected (stats s)"
  "orders_detected (stats (check_orders_order e c t order s))
     = orders_detected (stats s) + (if reportable e s t order then 1 else 0)"
  "titled (check_orders_order e c t order s)
     = titled s @ (if reportable e s t order then [(NEW_ORDER (order_type_of order), (c, t))] else [])"
  by (auto simp add: check_orders_order_def Let_def case_prod_beta reportable_def order_ts_def
        order_type_of_def titled_def alert_key_def)

lemma grows_refl [simp]: "grows s s"
  by (simp add: grows_def)

lemma grows_trans: "grows s s' \<Longrightarrow> grows s' s'' \<Longrightarrow> grows s s''"
  by (auto simp add: grows_def)

lemma grows_same:
  "known_tokens s' = known_tokens s \<Longrightarrow> seen_ads s' = seen_ads s
   \<Longrightarrow> seen_profiles s' = seen_profiles s \<Longrightarrow> grows s s'"
  by (simp add: grows_def)

lemma stats_match_same:
  "alerts s' = alerts s \<Longrightarrow> ads_detected (stats s') = ads_detected (stats s)
   \<Longrightarrow> boosts_detected (stats s') = boosts_detected (stats s)
   \<Longrightarrow> orders_detected (stats s') = orders_detected (stats s)
   \<Longrightarrow> stats_match s' = stats_match s"
  by (simp add: stats_match_def count_alerts_def)

lemma fold_invariant:
  "(\<And>x s. P s \<Longrightarrow> P (f x s)) \<Longrightarrow> P s \<Longrightarrow> P (fold f xs s)"
  by (induction xs arbitrary: s) auto

lemma fold_grows:
  "(\<And>x s. grows s (f x s)) \<Longrightarrow> grows s (fold f xs s)"
proof (induction xs arbitrary: s)
  case Nil
  show ?case by simp
next
  case (Cons x xs)
  have a: "grows s (f x s)" by (rule Cons.prems)
  have b: "grows (f x s) (fold f xs (f x s))" by (rule Cons.IH) (rule Cons.prems)
  from grows_trans[OF a b] show ?case by simp
qed

lemma fold_frame:
  "(\<And>x s. g (f x s) = g s) \<Longrightarrow> g (fold f xs s) = g s"
  by (induction xs arbitrary: s) auto

lemma steps_grow:
  "grows s (process_ads_step e a s)"
  "grows s (process_profiles_step e p s)"
  "grows s (process_boosts_step e b s)"
  "grows s (check_orders_order e c t order s)"
  by (auto simp add: grows_def process_ads_step_fields process_profiles_step_fields
        process_boosts_step_fields check_orders_order_fields)

lemma steps_stats_match:
  "stats_match s \<Longrightarrow> stats_match (process_ads_step e a s)"
  "stats_match s \<Longrightarrow> stats_match (process_profiles_step e p s)"
  "stats_match s \<Longrightarrow> stats_match (process_boosts_step e b s)"
  "stats_match s \<Longrightarrow> stats_match (check_orders_order e c t order s)"
  by (simp_all add: stats_match_def count_alerts_titled process_ads_step_fields
        process_profiles_step_fields process_boosts_step_fields check_orders_order_fields)

lemma processes_grow:
  "grows s (process_ads e ads s)"
  "grows s (process_profiles e profiles s)"
  "grows s (process_boosts e boosts s)"
proof -
  have a: "\<And>rs. grows s (fold (process_ads_step e) rs s)"
    by (rule fold_grows) (rule steps_grow)
  have p: "\<And>rs. grows s (fold (process_profiles_step e) rs s)"
    by (rule fold_grows) (rule steps_grow)
  have b: "\<And>rs. grows s (fold (process_boosts_step e) rs s)"
    by (rule fold_grows) (rule steps_grow)
  show "grows s (process_ads e ads s)"
    by (simp add: process_ads_def a split: option.splits payload.splits)
  show "grows s (process_profiles e profiles s)"
    by (simp add: process_profiles_def p split: option.splits payload.splits)
  show "grows s (process_boosts e boosts s)"
    by (simp add: process_boosts_def b split: option.splits payload.splits)
qed

lemma processes_stats_match:
  assumes "stats_match s"
  shows "stats_match (process_ads e ads s)"
    and "stats_match (process_profiles e profiles s)"
    and "stats_match (process_boosts e boosts s)"
proof -
  have a: "\<And>rs. stats_match (fold (process_ads_step e) rs s)"
    by (rule fold_invariant[where P = stats_match]) (rule steps_stats_match, assumption, rule assms)
  have p: "\<And>rs. stats_match (fold (process_profiles_step e) rs s)"
    by (rule fold_invariant[where P = stats_match]) (rule steps_stats_match, assumption, rule assms)
  have b: "\<And>rs. stats_match (fold (process_boosts_step e) rs s)"
    by (rule fold_invariant[where P = stats_match]) (rule steps_stats_match, assumption, rule assms)
  show "stats_match (process_ads e ads s)"
    by (simp add: process_ads_def a assms split: option.splits payload.splits)
  show "stats_match (process_profiles e profiles s)"
    by (simp add: process_profiles_def p assms split: option.splits payload.splits)
  show "stats_match (process_boosts e boosts s)"
    by (simp add: process_boosts_def b assms split: option.splits payload.splits)
qed

lemma fetch_json_grows: "grows s (snd (fetch_json r s))"
  by (rule grows_same) simp_all

lemma fetch_json_stats_match: "stats_match (snd (fetch_json r s)) = stats_match s"
  by (rule stats_match_same) simp_all

lemma check_orders_token_grows: "grows s (check_orders_token e k s)"
proof -
  define s1 where "s1 = snd (fetch_json (orders_api e (clock s) (fst k) (snd k)) s)"
  have f: "\<And>os. grows s1 (fold (check_orders_order e (fst k) (snd k)) os s1)"
    by (rule fold_grows) (rule steps_grow)
  have "grows s1 (check_orders_token e k s)"
    by (simp add: check_orders_token_def Let_def case_prod_beta s1_def[symmetric] f)
  moreover have "grows s s1" unfolding s1_def by (rule fetch_json_grows)
  ultimately show ?thesis by (metis grows_trans)
qed

lemma check_orders_token_stats_match:
  assumes "stats_match s"
  shows "stats_match (check_orders_token e k s)"
proof -
  define s1 where "s1 = snd (fetch_json (orders_api e (clock s) (fst k) (snd k)) s)"
  have m1: "stats_match s1" unfolding s1_def using assms by (simp add: fetch_json_stats_match)
  have f: "\<And>os. stats_match (fold (check_orders_order e (fst k) (snd k)) os s1)"
    by (rule fold_invariant[where P = stats_match]) (rule steps_stats_match, assumption, rule m1)
  show ?thesis
    by (simp add: check_orders_token_def Let_def case_prod_beta s1_def[symmetric] f m1)
qed

lemma check_orders_grows: "grows s (check_orders e s)"
  unfolding check_orders_def by (rule fold_grows) (rule check_orders_token_grows)

lemma check_orders_stats_match: "stats_match s \<Longrightarrow> stats_match (check_orders e s)"
  unfolding check_orders_def
  by (rule fold_invariant[where P = stats_match]) (rule check_orders_token_stats_match)

lemma handle_updates_frame:
  "stats (snd (handle_updates e us s)) = stats s
   \<and> seen_ads (snd (handle_updates e us s)) = seen_ads s
   \<and> seen_boosts (snd (handle_updates e us s)) = seen_boosts s
   \<and> seen_orders (snd (handle_updates e us s)) = seen_orders s
   \<and> seen_profiles (snd (handle_updates e us s)) = seen_profiles s
   \<and> profile_headers (snd (handle_updates e us s)) = profile_headers s
   \<and> profile_socials (snd (handle_updates e us s)) = profile_socials s
   \<and> known_tokens (snd (handle_updates e us s)) = known_tokens s
   \<and> alerts (snd (handle_updates e us s)) = alerts s"
  by (induction us arbitrary: s) (simp_all split: option.splits)

lemma handle_telegram_updates_frame [simp]:
  "stats (handle_telegram_updates e s) = stats s"
  "seen_ads (handle_telegram_updates e s) = seen_ads s"
  "seen_boosts (handle_telegram_updates e s) = seen_boosts s"
  "seen_orders (handle_telegram_updates e s) = seen_orders s"
  "seen_profiles (handle_telegram_updates e s) = seen_profiles s"
  "profile_headers (handle_telegram_updates e s) = profile_headers s"
  "profile_socials (handle_telegram_updates e s) = profile_socials s"
  "known_tokens (handle_telegram_updates e s) = known_tokens s"
  "alerts (handle_telegram_updates e s) = alerts s"
  by (simp_all add: handle_telegram_updates_def Let_def case_prod_beta handle_updates_frame
        split: http.splits sum.splits option.splits)

lemma initialize_steps_frame [simp]:
  "stats (initialize_ad a s) = stats s" "alerts (initialize_ad a s) = alerts s"
  "stats (initialize_profile p s) = stats s" "alerts (initialize_profile p s) = alerts s"
  "stats (initialize_boost b s) = stats s" "alerts (initialize_boost b s) = alerts s"
  "stats (initialize_order t order s) = stats s" "alerts (initialize_order t order s) = alerts s"
  by (simp_all add: initialize_ad_def initialize_profile_def initialize_boost_def
        initialize_order_def Let_def)

lemma initialize_steps_grow:
  "grows s (initialize_ad a s)"
  "grows s (initialize_profile p s)"
  "grows s (initialize_boost b s)"
  "grows s (initialize_order t order s)"
  by (simp_all add: grows_def initialize_ad_def initialize_profile_def initialize_boost_def
        initialize_order_def Let_def subset_insertI)

lemma handle_telegram_updates_grows: "grows s (handle_telegram_updates e s)"
  by (rule grows_same) simp_all

lemma handle_telegram_updates_stats_match:
  "stats_match (handle_telegram_updates e s) = stats_match s"
  by (rule stats_match_same) simp_all

lemma quiet_refl [simp]: "quiet s s"
  by (simp add: quiet_def)

lemma quiet_trans: "quiet s s' \<Longrightarrow> quiet s' s'' \<Longrightarrow> quiet s s''"
  by (simp add: quiet_def)

lemma fold_quiet: "(\<And>x s. quiet s (f x s)) \<Longrightarrow> quiet s (fold f xs s)"
proof (induction xs arbitrary: s)
  case Nil
  show ?case by simp
next
  case (Cons x xs)
  have a: "quiet s (f x s)" by (rule Cons.prems)
  have b: "quiet (f x s) (fold f xs (f x s))" by (rule Cons.IH) (rule Cons.prems)
  from quiet_trans[OF a b] show ?case by simp
qed

lemma quiet_stats_match: "quiet s s' \<Longrightarrow> stats_match s' = stats_match s"
  by (rule stats_match_same) (simp_all add: quiet_def)

lemma fetch_json_quiet: "quiet s (snd (fetch_json r s))"
  by (simp add: quiet_def)

lemma initialize_steps_quiet:
  "quiet s (initialize_ad a s)"
  "quiet s (initialize_profile p s)"
  "quiet s (initialize_boost b s)"
  "quiet s (initialize_order t order s)"
  by (simp_all add: quiet_def)

lemma initialize_token_quiet: "quiet s (initialize_token e k s)"
proof -
  define s1 where "s1 = snd (fetch_json (orders_api e (clock s) (fst k) (snd k)) s)"
  have f: "\<And>os. quiet s1 (fold (initialize_order (snd k)) os s1)"
    by (rule fold_quiet) (rule initialize_steps_quiet)
  have "quiet s1 (initialize_token e k s)"
    by (simp add: initialize_token_def Let_def case_prod_beta s1_def[symmetric] f)
  moreover have "quiet s s1" unfolding s1_def by (rule fetch_json_quiet)
  ultimately show ?thesis by (metis quiet_trans)
qed

lemma initialize_token_grows: "grows s (initialize_token e k s)"
proof -
  define s1 where "s1 = snd (fetch_json (orders_api e (clock s) (fst k) (snd k)) s)"
  have f: "\<And>os. grows s1 (fold (initialize_order (snd k)) os s1)"
    by (rule fold_grows) (rule initialize_steps_grow)
  have "grows s1 (initialize_token e k s)"
    by (simp add: initialize_token_def Let_def case_prod_beta s1_def[symmetric] f)
  moreover have "grows s s1" unfolding s1_def by (rule fetch_json_grows)
  ultimately show ?thesis by (metis grows_trans)
qed

lemma initialize_ads_both: "quiet s (initialize_ads e s) \<and> grows s (initialize_ads e s)"
proof -
  define s1 where "s1 = snd (fetch_json (ads_api e (clock s)) s)"
  have fq: "\<And>rs. quiet s1 (fold initialize_ad rs s1)"
    by (rule fold_quiet) (rule initialize_steps_quiet)
  have fg: "\<And>rs. grows s1 (fold initialize_ad rs s1)"
    by (rule fold_grows) (rule initialize_steps_grow)
  have q: "quiet s1 (initialize_ads e s)" and g: "grows s1 (initialize_ads e s)"
    by (simp_all add: initialize_ads_def Let_def case_prod_beta s1_def[symmetric] fq fg
          split: option.splits payload.splits)
  have "quiet s s1" unfolding s1_def by (rule fetch_json_quiet)
  from quiet_trans[OF this q] have "quiet s (initialize_ads e s)" .
  moreover have "grows s s1" unfolding s1_def by (rule fetch_json_grows)
  from grows_trans[OF this g] have "grows s (initialize_ads e s)" .
  ultimately show ?thesis by simp
qed

lemma initialize_profiles_both:
  "quiet s (initialize_profiles e s) \<and> grows s (initialize_profiles e s)"
proof -
  define s1 where "s1 = snd (fetch_json (profiles_api e (clock s)) s)"
  have fq: "\<And>rs. quiet s1 (fold initialize_profile rs s1)"
    by (rule fold_quiet) (rule initialize_steps_quiet)
  have fg: "\<And>rs. grows s1 (fold initialize_profile rs s1)"
    by (rule fold_grows) (rule initialize_steps_grow)
  have q: "quiet s1 (initialize_profiles e s)" and g: "grows s1 (initialize_profiles e s)"
    by (simp_all add: initialize_profiles_def Let_def case_prod_beta s1_def[symmetric] fq fg
          split: option.splits payload.splits)
  have "quiet s s1" unfolding s1_def by (rule fetch_json_quiet)
  from quiet_trans[OF this q] have "quiet s (initialize_profiles e s)" .
  moreover have "grows s s1" unfolding s1_def by (rule fetch_json_grows)
  from grows_trans[OF this g] have "grows s (initialize_profiles e s)" .
  ultimately show ?thesis by simp
qed

lemma initialize_boosts_both:
  "quiet s (initialize_boosts e s) \<and> grows s (initialize_boosts e s)"
proof -
  define s1 where "s1 = snd (fetch_json (boosts_api e (clock s)) s)"
  have fq: "\<And>rs. quiet s1 (fold initialize_boost rs s1)"
    by (rule fold_quiet) (rule initialize_steps_quiet)
  have fg: "\<And>rs. grows s1 (fold initialize_boost rs s1)"
    by (rule fold_grows) (rule initialize_steps_grow)
  have q: "quiet s1 (initialize_boosts e s)" and g: "grows s1 (initialize_boosts e s)"
    by (simp_all add: initialize_boosts_def Let_def case_prod_beta s1_def[symmetric] fq fg
          split: option.splits payload.splits)
  have "quiet s s1" unfolding s1_def by (rule fetch_json_quiet)
  from quiet_trans[OF this q] have "quiet s (initialize_boosts e s)" .
  moreover have "grows s s1" unfolding s1_def by (rule fetch_json_grows)
  from grows_trans[OF this g] have "grows s (initialize_boosts e s)" .
  ultimately show ?thesis by simp
qed

lemma initialize_orders_both:
  "quiet s (initialize_orders e s) \<and> grows s (initialize_orders e s)"
proof -
  have "quiet s (initialize_orders e s)"
    unfolding initialize_orders_def by (rule fold_quiet) (rule initialize_token_quiet)
  moreover have "grows s (initialize_orders e s)"
    unfolding initialize_orders_def by (rule fold_grows) (rule initialize_token_grows)
  ultimately show ?thesis by simp
qed

lemma initialize_both: "quiet s (initialize e s) \<and> grows s (initialize e s)"
proof -
  define s1 where "s1 = initialize_ads e s"
  define s2 where "s2 = initialize_profiles e s1"
  define s3 where "s3 = initialize_boosts e s2"
  have run: "initialize e s = initialize_orders e s3"
    by (simp only: initialize_def s1_def s2_def s3_def)
  have a: "quiet s s1" "grows s s1" unfolding s1_def using initialize_ads_both by simp_all
  have b: "quiet s1 s2" "grows s1 s2" unfolding s2_def using initialize_profiles_both by simp_all
  have c: "quiet s2 s3" "grows s2 s3" unfolding s3_def using initialize_boosts_both by simp_all
  have d: "quiet s3 (initialize e s)" "grows s3 (initialize e s)"
    unfolding run using initialize_orders_both by simp_all
  have "quiet s (initialize e s)"
    by (rule quiet_trans[OF quiet_trans[OF quiet_trans[OF a(1) b(1)] c(1)] d(1)])
  moreover have "grows s (initialize e s)"
    by (rule grows_trans[OF grows_trans[OF grows_trans[OF a(2) b(2)] c(2)] d(2)])
  ultimately show ?thesis by simp
qed

lemma begin_poll_both:
  "grows s (begin_poll e s)" "stats_match (begin_poll e s) = stats_match s"
proof -
  define s1 where "s1 = s\<lparr>stats := (stats s)\<lparr>polls := polls (stats s) + 1\<rparr>\<rparr>"
  have g1: "grows s s1" unfolding s1_def by (simp add: grows_def)
  have m1: "stats_match s1 = stats_match s" unfolding s1_def by (rule stats_match_same) simp_all
  have r: "begin_poll e s = (if polls (stats s1) mod 3 = 0 then handle_telegram_updates e s1 else s1)"
    by (simp only: begin_poll_def Let_def s1_def)
  have "grows s1 (begin_poll e s)" unfolding r by (simp add: handle_telegram_updates_grows)
  from grows_trans[OF g1 this] show "grows s (begin_poll e s)" .
  have "stats_match (begin_poll e s) = stats_match s1"
    unfolding r by (simp add: handle_telegram_updates_stats_match)
  with m1 show "stats_match (begin_poll e s) = stats_match s" by simp
qed

lemma fetch_feeds_both:
  "grows s (snd (snd (snd (fetch_feeds e s))))"
  "stats_match (snd (snd (snd (fetch_feeds e s)))) = stats_match s"
proof -
  define s1 where "s1 = snd (fetch_json (ads_api e (clock s)) s)"
  define s2 where "s2 = snd (fetch_json (profiles_api e (clock s1)) s1)"
  define s3 where "s3 = snd (fetch_json (boosts_api e (clock s2)) s2)"
  have r: "snd (snd (snd (fetch_feeds e s))) = s3"
    by (simp add: fetch_feeds_def Let_def case_prod_beta s1_def s2_def s3_def)
  have g: "grows s s1" "grows s1 s2" "grows s2 s3"
    unfolding s1_def s2_def s3_def by (rule fetch_json_grows)+
  have m: "stats_match s1 = stats_match s" "stats_match s2 = stats_match s1"
    "stats_match s3 = stats_match s2"
    unfolding s1_def s2_def s3_def by (rule fetch_json_stats_match)+
  show "grows s (snd (snd (snd (fetch_feeds e s))))"
    unfolding r by (rule grows_trans[OF grows_trans[OF g(1) g(2)] g(3)])
  show "stats_match (snd (snd (snd (fetch_feeds e s)))) = stats_match s"
    unfolding r using m by simp
qed

lemma process_feeds_both:
  "grows s (process_feeds e ads profiles boosts s)"
  "stats_match s \<Longrightarrow> stats_match (process_feeds e ads profiles boosts s)"
proof -
  define s1 where "s1 = (if truthy_payload ads then process_ads e ads s else s)"
  define s2 where "s2 = (if truthy_payload profiles then process_profiles e profiles s1 else s1)"
  define s3 where "s3 = (if truthy_payload boosts then process_boosts e boosts s2 else s2)"
  have r: "process_feeds e ads profiles boosts s
             = (if polls (stats s3) mod 5 = 0 then check_orders e s3 else s3)"
    by (simp only: process_feeds_def Let_def s1_def s2_def s3_def)
  have g1: "grows s s1" unfolding s1_def by (simp add: processes_grow)
  have g2: "grows s1 s2" unfolding s2_def by (simp add: processes_grow)
  have g3: "grows s2 s3" unfolding s3_def by (simp add: processes_grow)
  have g4: "grows s3 (process_feeds e ads profiles boosts s)"
    unfolding r by (simp add: check_orders_grows)
  show "grows s (process_feeds e ads profiles boosts s)"
    by (rule grows_trans[OF grows_trans[OF grows_trans[OF g1 g2] g3] g4])
  assume m: "stats_match s"
  have m1: "stats_match s1" unfolding s1_def using m by (simp add: processes_stats_match)
  have m2: "stats_match s2" unfolding s2_def using m1 by (simp add: processes_stats_match)
  have m3: "stats_match s3" unfolding s3_def using m2 by (simp add: processes_stats_match)
  show "stats_match (process_feeds e ads profiles boosts s)"
    unfolding r using m3 by (simp add: check_orders_stats_match)
qed

lemma poll_cycle_both:
  "grows s (poll_cycle e s)" "stats_match s \<Longrightarrow> stats_match (poll_cycle e s)"
proof -
  define s1 where "s1 = begin_poll e s"
  define f where "f = fetch_feeds e s1"
  define s2 where "s2 = snd (snd (snd f))"
  have r: "poll_cycle e s = process_feeds e (fst f) (fst (snd f)) (fst (snd (snd f))) s2"
    by (simp add: poll_cycle_def Let_def case_prod_beta s1_def f_def s2_def)
  have g1: "grows s s1" unfolding s1_def by (rule begin_poll_both)
  have g2: "grows s1 s2" unfolding s2_def f_def by (rule fetch_feeds_both)
  have g3: "grows s2 (poll_cycle e s)" unfolding r by (rule process_feeds_both)
  show "grows s (poll_cycle e s)" by (rule grows_trans[OF grows_trans[OF g1 g2] g3])
  assume m: "stats_match s"
  then have "stats_match s1" unfolding s1_def by (simp add: begin_poll_both)
  then have "stats_match s2" unfolding s2_def f_def by (simp add: fetch_feeds_both)
  then show "stats_match (poll_cycle e s)" unfolding r by (rule process_feeds_both)
qed

lemma poll_cycles_grows: "grows s ((poll_cycle e ^^ n) s)"
proof (induction n)
  case 0
  show ?case by simp
next
  case (Suc n)
  have "grows ((poll_cycle e ^^ n) s) (poll_cycle e ((poll_cycle e ^^ n) s))"
    by (rule poll_cycle_both)
  from grows_trans[OF Suc this] show ?case by simp
qed

lemma poll_cycles_stats_match: "stats_match s \<Longrightarrow> stats_match ((poll_cycle e ^^ n) s)"
proof (induction n)
  case 0
  then show ?case by simp
next
  case (Suc n)
  then have "stats_match ((poll_cycle e ^^ n) s)" by simp
  then have "stats_match (poll_cycle e ((poll_cycle e ^^ n) s))" by (rule poll_cycle_both)
  then show ?case by simp
qed

lemma stats_match_initial: "stats_match initial_state"
  by (simp add: stats_match_def initial_state_def initial_stats_def count_alerts_def)

lemma main_stats_match: "stats_match (main e n)"
proof -
  define s0 where "s0 = (if USE_TELEGRAM e then snd (send_telegram_message e Startup_message initial_state)
                else initial_state)"
  have "stats_match s0 = stats_match initial_state"
    unfolding s0_def by (rule stats_match_same) simp_all
  then have "stats_match s0" by (simp add: stats_match_initial)
  moreover have "quiet s0 (initialize e s0)" using initialize_both[of s0 e] by simp
  from quiet_stats_match[OF this] have "stats_match (initialize e s0) = stats_match s0" .
  ultimately have "stats_match (initialize e s0)" by simp
  then have "stats_match ((poll_cycle e ^^ n) (initialize e s0))"
    by (rule poll_cycles_stats_match)
  then show ?thesis by (simp add: main_def s0_def)
qed

lemma fold_known_tokens_ads:
  "a \<in> set rs \<Longrightarrow> ad_valid a \<Longrightarrow> ad_key a \<in> known_tokens (fold (process_ads_step e) rs s)"
proof (induction rs arbitrary: s)
  case Nil
  then show ?case by simp
next
  case (Cons r rs)
  show ?case
  proof (cases "a = r")
    case True
    with Cons.prems have "ad_key a \<in> known_tokens (process_ads_step e r s)"
      by (simp add: process_ads_step_fields)
    moreover have "grows (process_ads_step e r s) (fold (process_ads_step e) rs (process_ads_step e r s))"
      by (rule fold_grows) (rule steps_grow)
    ultimately show ?thesis by (auto simp add: grows_def)
  next
    case False
    with Cons.prems have "a \<in> set rs" by simp
    from Cons.IH[OF this Cons.prems(2)] show ?thesis by simp
  qed
qed

lemma fold_known_tokens_profiles:
  "p \<in> set rs \<Longrightarrow> profile_valid p
   \<Longrightarrow> profile_key p \<in> known_tokens (fold (process_profiles_step e) rs s)"
proof (induction rs arbitrary: s)
  case Nil
  then show ?case by simp
next
  case (Cons r rs)
  show ?case
  proof (cases "p = r")
    case True
    with Cons.prems have "profile_key p \<in> known_tokens (process_profiles_step e r s)"
      by (simp add: process_profiles_step_fields)
    moreover have "grows (process_profiles_step e r s)
                     (fold (process_profiles_step e) rs (process_profiles_step e r s))"
      by (rule fold_grows) (rule steps_grow)
    ultimately show ?thesis by (auto simp add: grows_def)
  next
    case False
    with Cons.prems have "p \<in> set rs" by simp
    from Cons.IH[OF this Cons.prems(2)] show ?thesis by simp
  qed
qed

lemma fold_known_tokens_boosts:
  "b \<in> set rs \<Longrightarrow> boost_valid b
   \<Longrightarrow> boost_key b \<in> known_tokens (fold (process_boosts_step e) rs s)"
proof (induction rs arbitrary: s)
  case Nil
  then show ?case by simp
next
  case (Cons r rs)
  show ?case
  proof (cases "b = r")
    case True
    with Cons.prems have "boost_key b \<in> known_tokens (process_boosts_step e r s)"
      by (simp add: process_boosts_step_fields)
    moreover have "grows (process_boosts_step e r s)
                     (fold (process_boosts_step e) rs (process_boosts_step e r s))"
      by (rule fold_grows) (rule steps_grow)
    ultimately show ?thesis by (auto simp add: grows_def)
  next
    case False
    with Cons.prems have "b \<in> set rs" by simp
    from Cons.IH[OF this Cons.prems(2)] show ?thesis by simp
  qed
qed

lemma grows_known: "grows s s' \<Longrightarrow> k \<in> known_tokens s \<Longrightarrow> k \<in> known_tokens s'"
  by (auto simp add: grows_def)

lemma grows_seen: 
  "grows s s' \<Longrightarrow> k \<in> seen_ads s \<Longrightarrow> k \<in> seen_ads s'"
  "grows s s' \<Longrightarrow> k \<in> seen_profiles s \<Longrightarrow> k \<in> seen_profiles s'"
  by (auto simp add: grows_def)

lemma process_ads_step_seen:
  "ad_valid a \<Longrightarrow> ad_key a \<in> seen_ads s \<Longrightarrow> alerts (process_ads_step e a s) = alerts s"
  by (simp add: process_ads_step_def Let_def ad_valid_def ad_key_def)

lemma process_profiles_step_seen:
  "profile_valid p \<Longrightarrow> profile_key p \<in> seen_profiles s
   \<Longrightarrow> alerts (process_profiles_step e p s) = alerts s"
  by (simp add: process_profiles_step_def Let_def profile_valid_def profile_key_def)

lemma truthy_str_the: "truthy_str x \<Longrightarrow> Some (the x) = x"
  by (cases x) simp_all

lemma check_orders_order_quiet:
  "\<not> reportable e s t order \<Longrightarrow> check_orders_order e c t order s = s"
  by (auto simp add: check_orders_order_def Let_def reportable_def order_ts_def)

lemma check_orders_order_fire:
  assumes "reportable e s t order"
  shows "\<exists>a. alerts (check_orders_order e c t order s) = alerts s @ [a]
             \<and> fst a = NEW_ORDER (order_type_of order) \<and> alert_key a = (c, t)
             \<and> reported_paid_at a = [order_ts order]"
  using assms
  by (simp add: check_orders_order_def Let_def case_prod_beta reportable_def order_ts_def
        order_type_of_def alert_key_def reported_paid_at_def)

lemma process_empty_feed:
  "process_ads e None s = process_ads e (Some (JList [])) s"
  "process_profiles e None s = process_profiles e (Some (JList [])) s"
  "process_boosts e None s = process_boosts e (Some (JList [])) s"
  by (simp_all add: process_ads_def process_profiles_def process_boosts_def)

lemma floor_numeral_div:
  "\<lfloor>numeral a / numeral b :: rat\<rfloor> = numeral a div numeral b"
  using floor_divide_of_int_eq[of "numeral a" "numeral b", where ?'a = rat] by simp

lemma scaled_1234_5: "scaled 2 (2469 / 2) = 123450"
  by (simp add: scaled_def round_half_even_def Let_def)

lemma scaled_double_1234e_9: "scaled 8 (2913700119930571 / 2361183241434822606848) = 123"
  by (simp add: scaled_def round_half_even_def Let_def floor_numeral_div)

lemma scaled_1234e_9: "scaled 8 (617 / 500000000) = 123"
  by (simp add: scaled_def round_half_even_def Let_def floor_numeral_div)

lemma digits_1234: "digits 1234 = ''1234''"
  by (simp add: digits.simps digit_char_def)

lemma digits_0: "digits 0 = ''0''"
  by (simp add: digits.simps digit_char_def)

lemma digits_50: "digits 50 = ''50''"
  by (simp add: digits.simps digit_char_def)

lemma digits_123: "digits 123 = ''123''"
  by (simp add: digits.simps digit_char_def)

lemma zero_pad_50: "zero_pad 2 ''50'' = ''50''"
  by (simp add: zero_pad_def)

lemma zero_pad_123: "zero_pad 8 ''123'' = ''00000123''"
  by (simp add: zero_pad_def eval_nat_numeral)

lemma group_1234: "group_thousands ''1234'' = ''1,234''"
  by (simp add: group_thousands_def)

lemma rstrip_123: "rstrip CHR ''.'' (rstrip CHR ''0'' ''0.00000123'') = ''0.00000123''"
  by (simp add: rstrip_def)

lemma format_price_1234_5: "format_price (Inr (Finite (2469 / 2))) = ''1,234.50''"
proof -
  have "(1::rat) \<le> 2469 / 2" by simp
  then have "format_price (Inr (Finite (2469 / 2))) = format_grouped_f 2 (Finite (2469 / 2))"
    by (simp add: format_price_def format_price_try_def)
  also have "\<dots> = group_thousands (digits 1234) @ ''.'' @ zero_pad 2 (digits 50)"
    by (simp add: Let_def scaled_1234_5 sign_str_def)
  also have "\<dots> = ''1,234.50''" by (simp add: digits_1234 digits_50 zero_pad_50 group_1234)
  finally show ?thesis .
qed

lemma format_price_double_1234e_9: "format_price (Inr (Finite (2913700119930571 / 2361183241434822606848))) = ''0.00000123''"
proof -
  have "\<not> (1::rat) \<le> 2913700119930571 / 2361183241434822606848" by simp
  then have "format_price (Inr (Finite (2913700119930571 / 2361183241434822606848)))
      = rstrip CHR ''.'' (rstrip CHR ''0'' (format_f 8 (Finite (2913700119930571 / 2361183241434822606848))))"
    by (simp add: format_price_def format_price_try_def)
  also have "format_f 8 (Finite (2913700119930571 / 2361183241434822606848))
      = digits 0 @ ''.'' @ zero_pad 8 (digits 123)"
    by (simp add: Let_def scaled_double_1234e_9 sign_str_def)
  also have "\<dots> = ''0.00000123''" by (simp add: digits_0 digits_123 zero_pad_123)
  finally show ?thesis by (simp add: rstrip_123)
qed

lemma format_price_1234e_9: "format_price (Inr (Finite (617 / 500000000))) = ''0.00000123''"
proof -
  have "\<not> (1::rat) \<le> 617 / 500000000" by simp
  then have "format_price (Inr (Finite (617 / 500000000)))
      = rstrip CHR ''.'' (rstrip CHR ''0'' (format_f 8 (Finite (617 / 500000000))))"
    by (simp add: format_price_def format_price_try_def)
  also have "format_f 8 (Finite (617 / 500000000)) = digits 0 @ ''.'' @ zero_pad 8 (digits 123)"
    by (simp add: Let_def scaled_1234e_9 sign_str_def)
  also have "\<dots> = ''0.00000123''" by (simp add: digits_0 digits_123 zero_pad_123)
  finally show ?thesis by (simp add: rstrip_123)
qed

lemma format_price_non_numeric:
  "format_price_try price = Inl ex \<Longrightarrow> format_price price = ''N/A''"
  by (simp add: format_price_def)

lemma round_half_even_close: "\<bar>of_int (round_half_even x) - x\<bar> \<le> 1 / 2"
proof -
  have "of_int \<lfloor>x\<rfloor> \<le> x" and "x < of_int \<lfloor>x\<rfloor> + 1" by linarith+
  then show ?thesis
    by (auto simp add: round_half_even_def Let_def abs_le_iff)
qed

lemma round_half_even_nonneg: "0 \<le> x \<Longrightarrow> 0 \<le> round_half_even x"
proof -
  assume "0 \<le> x"
  then have "0 \<le> \<lfloor>x\<rfloor>" by simp
  then show ?thesis by (auto simp add: round_half_even_def Let_def)
qed

lemma scaled_close:
  assumes "0 \<le> x"
  shows "\<bar>of_nat (scaled d x) / 10 ^ d - x\<bar> \<le> 1 / (2 * 10 ^ d)"
proof -
  have nn: "0 \<le> round_half_even (x * 10 ^ d)"
    using assms by (intro round_half_even_nonneg) simp
  then have eq: "(of_nat (scaled d x) :: rat) = of_int (round_half_even (x * 10 ^ d))"
    by (simp add: scaled_def)
  have "\<bar>of_int (round_half_even (x * 10 ^ d)) - x * 10 ^ d\<bar> \<le> 1 / 2"
    by (rule round_half_even_close)
  then have "\<bar>of_nat (scaled d x) - x * 10 ^ d\<bar> \<le> 1 / 2" by (simp add: eq)
  then have "\<bar>of_nat (scaled d x) - x * 10 ^ d\<bar> / 10 ^ d \<le> (1 / 2) / 10 ^ d"
    by (intro divide_right_mono) simp_all
  moreover have "\<bar>of_nat (scaled d x) - x * 10 ^ d\<bar> / 10 ^ d
                   = \<bar>of_nat (scaled d x) / 10 ^ d - x\<bar>"
  proof -
    have "\<bar>of_nat (scaled d x) - x * 10 ^ d\<bar> / 10 ^ d
            = \<bar>(of_nat (scaled d x) - x * 10 ^ d) / 10 ^ d\<bar>" by simp
    also have "(of_nat (scaled d x) - x * 10 ^ d) / 10 ^ d = of_nat (scaled d x) / 10 ^ d - x"
      by (simp add: diff_divide_distrib)
    finally show ?thesis .
  qed
  ultimately show ?thesis by simp
qed

lemma digit_char_is_digit: "d < 10 \<Longrightarrow> digit_char d \<in> set ''0123456789''"
  unfolding digit_char_def by (rule nth_mem) simp

lemma digits_nonempty: "digits n \<noteq> []"
  by (subst digits.simps) simp

lemma digits_are_digits: "set (digits n) \<subseteq> set ''0123456789''"
proof (induction n rule: digits.induct)
  case (1 n)
  show ?case
  proof (cases "n < 10")
    case True
    then have "digits n = [digit_char n]" by (subst digits.simps) simp
    with digit_char_is_digit[OF True] show ?thesis by simp
  next
    case False
    then have eq: "digits n = digits (n div 10) @ [digit_char (n mod 10)]"
      by (subst digits.simps) simp
    have "digit_char (n mod 10) \<in> set ''0123456789''" by (rule digit_char_is_digit) simp
    with 1[OF False] show ?thesis unfolding eq by simp
  qed
qed

lemma digits_length: "n < 10 ^ d \<Longrightarrow> 0 < d \<Longrightarrow> length (digits n) \<le> d"
proof (induction n arbitrary: d rule: digits.induct)
  case (1 n)
  show ?case
  proof (cases "n < 10")
    case True
    then have "digits n = [digit_char n]" by (subst digits.simps) simp
    with 1(3) show ?thesis by simp
  next
    case False
    then have eq: "digits n = digits (n div 10) @ [digit_char (n mod 10)]"
      by (subst digits.simps) simp
    from False 1(2) have d1: "1 < d" by (cases "d = 1") (use 1(3) in auto)
    then obtain d' where d': "d = Suc d'" "0 < d'" by (cases d) auto
    from 1(2) d' have "n div 10 < 10 ^ d'" by (simp add: less_mult_imp_div_less)
    from 1(1)[OF False this d'(2)] show ?thesis unfolding eq using d' by simp
  qed
qed

lemma zero_pad_length: "length s \<le> w \<Longrightarrow> length (zero_pad w s) = w"
  by (simp add: zero_pad_def)

lemma fraction_length: "0 < d \<Longrightarrow> length (zero_pad d (digits (n mod 10 ^ d))) = d"
  by (rule zero_pad_length, rule digits_length) simp_all

lemma fraction_digits: "set (zero_pad d (digits n)) \<subseteq> set ''0123456789''"
  using digits_are_digits[of n] by (auto simp add: zero_pad_def)

lemma rstrip_append:
  "rstrip c (xs @ ys) = (if \<forall>y\<in>set ys. y = c then rstrip c xs else xs @ rstrip c ys)"
  by (simp add: rstrip_def dropWhile_append)

lemma rstrip_id: "s \<noteq> [] \<Longrightarrow> last s \<noteq> c \<Longrightarrow> rstrip c s = s"
proof -
  assume a: "s \<noteq> []" "last s \<noteq> c"
  then obtain x xs where r: "rev s = x # xs" by (cases "rev s") auto
  with a have "x \<noteq> c" by (metis last_rev list.sel(1) rev_rev_ident rev_is_Nil_conv)
  with r have "dropWhile (\<lambda>x. x = c) (rev s) = rev s" by simp
  then show ?thesis by (simp add: rstrip_def)
qed

lemma rstrip_last: "rstrip c s \<noteq> [] \<Longrightarrow> last (rstrip c s) \<noteq> c"
proof -
  assume a: "rstrip c s \<noteq> []"
  then have ne: "dropWhile (\<lambda>x. x = c) (rev s) \<noteq> []" by (simp add: rstrip_def)
  then have "hd (dropWhile (\<lambda>x. x = c) (rev s)) \<noteq> c" by (rule hd_dropWhile)
  moreover have "last (rstrip c s) = hd (dropWhile (\<lambda>x. x = c) (rev s))"
    using ne by (simp add: rstrip_def last_rev)
  ultimately show ?thesis by simp
qed

lemma rstrip_subset: "set (rstrip c s) \<subseteq> set s"
  using set_dropWhileD[of _ "\<lambda>x. x = c" "rev s"] by (auto simp add: rstrip_def)

lemma rstrip_length: "length (rstrip c s) \<le> length s"
  using length_dropWhile_le[of "\<lambda>x. x = c" "rev s"] by (simp add: rstrip_def)

lemma rstrip_all: "(\<forall>y\<in>set s. y = c) \<Longrightarrow> rstrip c s = []"
  by (simp add: rstrip_def)

lemma rstrip_zeros_point:
  "rstrip CHR ''0'' (ip @ CHR ''.'' # fr) = ip @ CHR ''.'' # rstrip CHR ''0'' fr"
proof (cases "\<forall>y\<in>set fr. y = CHR ''0''")
  case True
  then have z: "rstrip CHR ''0'' fr = []" by (rule rstrip_all)
  have "rstrip CHR ''0'' (ip @ [CHR ''.'']) = ip @ [CHR ''.'']" by (rule rstrip_id) simp_all
  with True rstrip_append[of "CHR ''0''" "ip @ [CHR ''.'']" fr]
  have "rstrip CHR ''0'' (ip @ CHR ''.'' # fr) = ip @ [CHR ''.'']" by simp
  with z show ?thesis by simp
next
  case False
  with rstrip_append[of "CHR ''0''" "ip @ [CHR ''.'']" fr] show ?thesis by simp
qed

lemma trimmed:
  assumes ip: "ip \<noteq> []" "set ip \<subseteq> set ''0123456789''"
    and fr: "set fr \<subseteq> set ''0123456789''"
  shows "rstrip CHR ''.'' (rstrip CHR ''0'' (ip @ CHR ''.'' # fr))
           = (if rstrip CHR ''0'' fr = [] then ip else ip @ CHR ''.'' # rstrip CHR ''0'' fr)"
proof (cases "rstrip CHR ''0'' fr = []")
  case True
  have "last ip \<in> set ip" using ip(1) by simp
  with ip(2) have "last ip \<noteq> CHR ''.''" by auto
  from rstrip_id[OF ip(1) this] have c: "rstrip CHR ''.'' ip = ip" .
  have a: "rstrip CHR ''0'' (ip @ CHR ''.'' # fr) = ip @ [CHR ''.'']"
    by (simp add: rstrip_zeros_point True)
  have b: "rstrip CHR ''.'' (ip @ [CHR ''.'']) = rstrip CHR ''.'' ip"
    using rstrip_append[of "CHR ''.''" ip "[CHR ''.'']"] by simp
  from a b c True show ?thesis by simp
next
  case False
  define f where "f = rstrip CHR ''0'' fr"
  have fne: "f \<noteq> []" using False by (simp add: f_def)
  then have "last f \<in> set f" by simp
  moreover have "set f \<subseteq> set ''0123456789''"
    using rstrip_subset[of "CHR ''0''" fr] fr by (auto simp add: f_def)
  ultimately have "last f \<noteq> CHR ''.''" by auto
  moreover have "last (ip @ CHR ''.'' # f) = last f" using fne by simp
  ultimately have "rstrip CHR ''.'' (ip @ CHR ''.'' # f) = ip @ CHR ''.'' # f"
    by (intro rstrip_id) simp_all
  moreover have "rstrip CHR ''0'' (ip @ CHR ''.'' # fr) = ip @ CHR ''.'' # f"
    by (simp add: rstrip_zeros_point f_def)
  ultimately show ?thesis using False by (simp add: f_def)
qed

lemma format_price_ge_1:
  assumes "1 \<le> p"
  shows "format_price (Inr (Finite p))
           = group_thousands (digits (scaled 2 p div 100)) @ ''.''
             @ zero_pad 2 (digits (scaled 2 p mod 100))"
  using assms by (simp add: format_price_def format_price_try_def Let_def
        sign_str_def)

lemma format_price_lt_1:
  assumes "0 \<le> p" "p < 1"
  shows "format_price (Inr (Finite p))
           = (if rstrip CHR ''0'' (zero_pad 8 (digits (scaled 8 p mod 10 ^ 8))) = []
              then digits (scaled 8 p div 10 ^ 8)
              else digits (scaled 8 p div 10 ^ 8) @ ''.''
                   @ rstrip CHR ''0'' (zero_pad 8 (digits (scaled 8 p mod 10 ^ 8))))"
proof -
  have "format_price (Inr (Finite p))
          = rstrip CHR ''.'' (rstrip CHR ''0''
              (digits (scaled 8 p div 10 ^ 8) @ ''.'' @ zero_pad 8 (digits (scaled 8 p mod 10 ^ 8))))"
    using assms by (simp add: format_price_def format_price_try_def Let_def sign_str_def)
  also have "\<dots> = (if rstrip CHR ''0'' (zero_pad 8 (digits (scaled 8 p mod 10 ^ 8))) = []
              then digits (scaled 8 p div 10 ^ 8)
              else digits (scaled 8 p div 10 ^ 8) @ ''.''
                   @ rstrip CHR ''0'' (zero_pad 8 (digits (scaled 8 p mod 10 ^ 8))))"
    using trimmed[OF digits_nonempty digits_are_digits fraction_digits,
                  of "scaled 8 p div 10 ^ 8" 8 "scaled 8 p mod 10 ^ 8"] by simp
  finally show ?thesis .
qed

lemma commas_rev_filter:
  "\<forall>x\<in>set s. x \<noteq> CHR '','' \<Longrightarrow> filter (\<lambda>c. c \<noteq> CHR '','') (commas_rev s) = s"
  by (induction s rule: commas_rev.induct) simp_all

lemma commas_rev_last:
  "s \<noteq> [] \<Longrightarrow> commas_rev s \<noteq> [] \<and> last (commas_rev s) = last s"
  by (induction s rule: commas_rev.induct) simp_all

lemma mod4_facts:
  "(0::nat) mod 4 \<noteq> 3" "Suc 0 mod 4 \<noteq> 3" "Suc (Suc 0) mod 4 \<noteq> 3"
  "Suc (Suc (Suc 0)) mod 4 = 3" "Suc (Suc (Suc (Suc j))) mod 4 = j mod 4"
  by presburger+

lemma commas_rev_nth:
  "\<forall>x\<in>set s. x \<noteq> CHR '','' \<Longrightarrow> i < length (commas_rev s)
   \<Longrightarrow> (commas_rev s ! i = CHR '','') = (i mod 4 = 3)"
proof (induction s arbitrary: i rule: commas_rev.induct)
  case (1 a b c d rest)
  from "1.prems"(1) have nc: "a \<noteq> CHR '',''" "b \<noteq> CHR '',''" "c \<noteq> CHR '',''"
    "\<forall>x\<in>set (d # rest). x \<noteq> CHR '',''" by simp_all
  show ?case
  proof (cases i)
    case 0
    with nc mod4_facts(1) show ?thesis by simp
  next
    case i1: (Suc i1)
    show ?thesis
    proof (cases i1)
      case 0
      with i1 nc mod4_facts(2) show ?thesis by simp
    next
      case i2: (Suc i2)
      show ?thesis
      proof (cases i2)
        case 0
        with i1 i2 nc mod4_facts(3) show ?thesis by simp
      next
        case i3: (Suc i3)
        show ?thesis
        proof (cases i3)
          case 0
          with i1 i2 i3 mod4_facts(4) show ?thesis by simp
        next
          case (Suc j)
          have e: "i = Suc (Suc (Suc (Suc j)))" by (simp add: i1 i2 i3 Suc)
          from "1.prems"(2) have "j < length (commas_rev (d # rest))" unfolding e by simp
          from "1.IH"[OF nc(4) this]
          have "(commas_rev (d # rest) ! j = CHR '','') = (j mod 4 = 3)" .
          then show ?thesis unfolding e mod4_facts(5) by simp
        qed
      qed
    qed
  qed
next
  case "2_1"
  then show ?case by simp
next
  case "2_2"
  then show ?case using mod4_facts(1) by simp
next
  case "2_3"
  then have "i = 0 \<or> i = Suc 0" by (simp add: less_Suc_eq)
  with "2_3" mod4_facts(1,2) show ?case by (elim disjE) simp_all
next
  case "2_4"
  then have "i = 0 \<or> i = Suc 0 \<or> i = Suc (Suc 0)" by (simp add: less_Suc_eq)
  with "2_4" mod4_facts(1,2,3) show ?case by (elim disjE) simp_all
qed

lemma group_thousands_grouped:
  assumes "\<forall>x\<in>set s. x \<noteq> CHR '',''"
  shows "grouped_by_three (group_thousands s) s"
proof -
  define t where "t = commas_rev (rev s)"
  have nc: "\<forall>x\<in>set (rev s). x \<noteq> CHR '',''" using assms by simp
  have r: "group_thousands s = rev t" by (simp add: group_thousands_def t_def)
  have f: "filter (\<lambda>c. c \<noteq> CHR '','') (rev t) = s"
    using commas_rev_filter[OF nc] by (simp add: t_def rev_filter[symmetric])
  have n: "(rev t ! (length (rev t) - 1 - i) = CHR '','') = (i mod 4 = 3)"
    if "i \<in> set [0..<length (rev t)]" for i
  proof -
    from that have i: "i < length t" by simp
    then have "rev t ! (length (rev t) - 1 - i) = t ! i" by (simp add: rev_nth)
    with commas_rev_nth[OF nc, of i] i show ?thesis by (simp add: t_def)
  qed
  have h: "hd (rev t) \<noteq> CHR '',''" if "rev t \<noteq> []"
  proof -
    from that have tn: "t \<noteq> []" by simp
    then have sn: "rev s \<noteq> []" by (auto simp add: t_def)
    from commas_rev_last[OF sn] have "last t = last (rev s)" by (simp add: t_def)
    moreover have "last (rev s) \<in> set (rev s)" using sn by (rule last_in_set)
    ultimately have "last t \<noteq> CHR '',''" using nc by auto
    with tn show ?thesis by (simp add: hd_rev)
  qed
  from f n h show ?thesis unfolding grouped_by_three_def r by blast
qed

lemma digits_no_comma: "\<forall>x\<in>set (digits n). x \<noteq> CHR '',''"
  using digits_are_digits[of n] by auto

lemma digit_value_digit_char: "d < 10 \<Longrightarrow> digit_value (digit_char d) = d"
proof -
  assume "d < 10"
  then have "d = 0 \<or> d = 1 \<or> d = 2 \<or> d = 3 \<or> d = 4 \<or> d = 5 \<or> d = 6 \<or> d = 7 \<or> d = 8 \<or> d = 9"
    by presburger
  then show ?thesis
    by (elim disjE) (simp_all add: digit_value_def digit_char_def)
qed

lemma decimal_value_snoc:
  "decimal_value (s @ [c]) = 10 * decimal_value s + digit_value c"
  by (simp add: decimal_value_def)

lemma decimal_value_digits: "decimal_value (digits n) = n"
proof (induction n rule: digits.induct)
  case (1 n)
  show ?case
  proof (cases "n < 10")
    case True
    then have "digits n = [digit_char n]" by (subst digits.simps) simp
    with digit_value_digit_char[OF True] show ?thesis by (simp add: decimal_value_def)
  next
    case False
    then have eq: "digits n = digits (n div 10) @ [digit_char (n mod 10)]"
      by (subst digits.simps) simp
    have "digit_value (digit_char (n mod 10)) = n mod 10" by (rule digit_value_digit_char) simp
    with 1[OF False] show ?thesis unfolding eq by (simp add: decimal_value_snoc)
  qed
qed

lemma digit_value_0: "digit_value CHR ''0'' = 0"
  by (simp add: digit_value_def)

lemma decimal_value_zeros:
  "foldl (\<lambda>a c. 10 * a + digit_value c) 0 (replicate k CHR ''0'') = 0"
  by (induction k) (simp_all add: digit_value_0)

lemma decimal_value_zero_pad: "decimal_value (zero_pad w (digits n)) = n"
  using decimal_value_digits[of n]
  by (simp add: decimal_value_def zero_pad_def decimal_value_zeros)

lemma format_price_special:
  "format_price (Inr Pos_inf) = ''inf''"
  "format_price (Inr Neg_inf) = ''-inf''"
  "format_price (Inr NaN) = ''nan''"
  "format_price (Inr Neg_zero) = ''-0''"
  by (simp_all add: format_price_def format_price_try_def rstrip_def digits_0 zero_pad_def
        eval_nat_numeral)

lemma scaled_1: "scaled 2 1 = 100"
  by (simp add: scaled_def round_half_even_def Let_def)

lemma scaled_1000: "scaled 2 1000 = 100000"
  by (simp add: scaled_def round_half_even_def Let_def)

lemma scaled_double_1234567_891: "scaled 2 (5302428716536693 / 4294967296) = 123456789"
  by (simp add: scaled_def round_half_even_def Let_def floor_numeral_div)

lemma digits_more:
  "digits 1 = ''1''" "digits (Suc 0) = ''1''" "digits 1000 = ''1000''" "digits 1234567 = ''1234567''" "digits 89 = ''89''"
  by (simp_all add: digits.simps digit_char_def)

lemma zero_pad_more: "zero_pad 2 ''0'' = ''00''" "zero_pad 2 ''89'' = ''89''"
  by (simp_all add: zero_pad_def eval_nat_numeral)

lemma group_more:
  "group_thousands ''1'' = ''1''" "group_thousands ''1000'' = ''1,000''"
  "group_thousands ''1234567'' = ''1,234,567''"
  by (simp_all add: group_thousands_def)

lemma format_price_1: "format_price (Inr (Finite 1)) = ''1.00''"
  using format_price_ge_1[of 1]
  by (simp add: scaled_1 digits_more digits_0 zero_pad_more group_more)

lemma format_price_1000: "format_price (Inr (Finite 1000)) = ''1,000.00''"
  using format_price_ge_1[of 1000]
  by (simp add: scaled_1000 digits_more digits_0 zero_pad_more group_more)

lemma format_price_double_1234567_891:
  "format_price (Inr (Finite (5302428716536693 / 4294967296))) = ''1,234,567.89''"
  using format_price_ge_1[of "5302428716536693 / 4294967296"]
  by (simp add: scaled_double_1234567_891 digits_more zero_pad_more group_more)

lemma lstrip_of_none: "space_prefix ws s = 0 \<Longrightarrow> lstrip_of ws s = s"
  by (subst lstrip_of.simps) simp

lemma lstrip_of_some:
  "space_prefix ws s = n \<Longrightarrow> n \<noteq> 0 \<Longrightarrow> lstrip_of ws s = lstrip_of ws (drop n s)"
  by (subst lstrip_of.simps) simp

lemma strip_solana: "strip ''solana'' = ''solana''"
  by (simp add: strip_def lstrip_of_none space_prefix_def whitespace_def)

lemma strip_TokenA: "strip ''TokenA'' = ''TokenA''"
  by (simp add: strip_def lstrip_of_none space_prefix_def whitespace_def)

lemma strip_spaces: "strip '' solana  '' = ''solana''"
proof -
  have 1: "space_prefix whitespace '' solana  '' = 1"
    by (simp add: space_prefix_def whitespace_def)
  have 2: "space_prefix whitespace ''solana  '' = 0"
    by (simp add: space_prefix_def whitespace_def)
  have 3: "space_prefix (map rev whitespace) ''  analos'' = 1"
    by (simp add: space_prefix_def whitespace_def)
  have 4: "space_prefix (map rev whitespace) '' analos'' = 1"
    by (simp add: space_prefix_def whitespace_def)
  have 5: "space_prefix (map rev whitespace) ''analos'' = 0"
    by (simp add: space_prefix_def whitespace_def)
  show ?thesis
    using lstrip_of_some[OF 1] lstrip_of_none[OF 2] lstrip_of_some[OF 3] lstrip_of_some[OF 4]
      lstrip_of_none[OF 5]
    by (simp add: strip_def)
qed

lemma parse_lines_solana:
  "parse_lines [Chain_line ''solana'', Address_line ''TokenA''] = (''solana'', ''TokenA'')"
  by (simp add: parse_lines_def strip_solana strip_TokenA)

lemma parse_lines_strips:
  "parse_lines [Chain_line '' solana  '', Address_line ''TokenA''] = (''solana'', ''TokenA'')"
  by (simp add: parse_lines_def strip_spaces strip_TokenA)

lemma send_telegram_message_outbox:
  "USE_TELEGRAM e \<Longrightarrow>
   outbox (snd (send_telegram_message e m s)) = outbox s @ [SendMessage m]
   \<and> clock (snd (send_telegram_message e m s)) = clock s + 1
   \<and> fst (send_telegram_message e m s) = post_ok e (clock s) (SendMessage m)"
  by (simp add: send_telegram_message_def post_ok_def Let_def split: http.splits)

lemma send_telegram_photo_outbox:
  "USE_TELEGRAM e \<Longrightarrow>
   outbox (snd (send_telegram_photo e u m s))
     = outbox s @ SendPhoto u m # (if post_ok e (clock s) (SendPhoto u m) then [] else [SendMessage m])
   \<and> clock (snd (send_telegram_photo e u m s))
       = clock s + (if post_ok e (clock s) (SendPhoto u m) then 1 else 2)
   \<and> fst (send_telegram_photo e u m s)
       = (post_ok e (clock s) (SendPhoto u m) \<or> post_ok e (clock s + 1) (SendMessage m))"
  by (auto simp add: send_telegram_photo_def post_ok_def Let_def send_telegram_message_outbox
        split: http.splits)

lemma print_alert_outbox:
  assumes "USE_TELEGRAM e"
  shows "\<exists>u m. outbox (print_alert e ttl lines s)
           = outbox s @ SendPhoto u m #
             (if post_ok e (clock s) (SendPhoto u m) then []
              else if post_ok e (clock s + 1) (SendMessage m) then [SendMessage m]
              else [SendMessage m, SendMessage m])"
proof -
  define s1 where "s1 = s\<lparr>alerts := alerts s @ [(ttl, lines)]\<rparr>"
  define c where "c = fst (parse_lines lines)"
  define t where "t = snd (parse_lines lines)"
  define m where "m = Alert_message ttl lines (attach_profile_data s1 c t)"
  define u where "u = format_telegram_alert_image (Some (attach_profile_data s1 c t)) c t"
  define r where "r = send_telegram_photo e u m s1"
  have pa: "print_alert e ttl lines s
              = (if \<not> fst r then snd (send_telegram_message e m (snd r)) else snd r)"
    using assms
    by (simp add: print_alert_def Let_def case_prod_beta s1_def c_def t_def m_def u_def r_def)
  have c1: "clock s1 = clock s" and o1: "outbox s1 = outbox s" by (simp_all add: s1_def)
  note ph = send_telegram_photo_outbox[OF assms, of u m s1, folded r_def, unfolded c1 o1]
  note ms = send_telegram_message_outbox[OF assms, of m "snd r"]
  have "outbox (print_alert e ttl lines s)
           = outbox s @ SendPhoto u m #
             (if post_ok e (clock s) (SendPhoto u m) then []
              else if post_ok e (clock s + 1) (SendMessage m) then [SendMessage m]
              else [SendMessage m, SendMessage m])"
    unfolding pa using ph ms by auto
  then show ?thesis by blast
qed

section \<open>Boost detection\<close>

text \<open>
  C1.  A boost record with a chain, a token address and a total amount fires a BOOST
  alert exactly when its total is strictly greater than the total stored for the
  token (0 when there is none); the stored total then becomes the new total and the
  boost counter goes up by one; otherwise neither the alerts nor the stored total
  change.  The alert shows the new total, and it shows the previous total with the
  difference only when the previous total is positive.  For the totals
  5, 5, 12, 12, 20 of an unseen token, one observation per feed, exactly three alerts
  fire, for 5, 12 and 20: the second and third show (5, +7) and (12, +8), the first
  shows no previous total and no difference.
\<close>

theorem boost_event_iff_total_exceeds_stored:
  assumes "bo_chainId b = Some c" "c \<noteq> []" "bo_tokenAddress b = Some t" "t \<noteq> []"
    "bo_totalAmount b = Some n"
  shows "(get_or_0 (seen_boosts s) t < n \<longrightarrow>
            seen_boosts (process_boosts_step e b s) = (seen_boosts s)(t \<mapsto> n)
          \<and> boosts_detected (stats (process_boosts_step e b s)) = boosts_detected (stats s) + 1
          \<and> (\<exists>a. alerts (process_boosts_step e b s) = alerts s @ [a] \<and> fst a = NEW_BOOST
                 \<and> alert_key a = (c, t) \<and> reported_totals a = [n]
                 \<and> reported_deltas a =
                     (if 0 < get_or_0 (seen_boosts s) t
                      then [(get_or_0 (seen_boosts s) t, n - get_or_0 (seen_boosts s) t)]
                      else [])))
       \<and> (n \<le> get_or_0 (seen_boosts s) t \<longrightarrow>
            alerts (process_boosts_step e b s) = alerts s
          \<and> seen_boosts (process_boosts_step e b s) = seen_boosts s
          \<and> boosts_detected (stats (process_boosts_step e b s)) = boosts_detected (stats s))
       \<and> (seen_boosts s t = None \<longrightarrow>
            map alert_view (new_alerts s
              (fold (\<lambda>k. process_boosts e (Some (JList [boost_of c t k]))) [5, 5, 12, 12, 20] s))
            = [(NEW_BOOST, (c, t), [5], []),
               (NEW_BOOST, (c, t), [12], [(5, 7)]),
               (NEW_BOOST, (c, t), [20], [(12, 8)])]
          \<and> seen_boosts
              (fold (\<lambda>k. process_boosts e (Some (JList [boost_of c t k]))) [5, 5, 12, 12, 20] s) t
            = Some 20)"
proof (intro conjI impI)
  assume up: "get_or_0 (seen_boosts s) t < n"
  note fire = process_boosts_step_fire[OF assms up, of e]
  show "seen_boosts (process_boosts_step e b s) = (seen_boosts s)(t \<mapsto> n)" by (rule fire(1))
  show "boosts_detected (stats (process_boosts_step e b s)) = boosts_detected (stats s) + 1"
    by (rule fire(2))
  show "\<exists>a. alerts (process_boosts_step e b s) = alerts s @ [a] \<and> fst a = NEW_BOOST
                 \<and> alert_key a = (c, t) \<and> reported_totals a = [n]
                 \<and> reported_deltas a =
                     (if 0 < get_or_0 (seen_boosts s) t
                      then [(get_or_0 (seen_boosts s) t, n - get_or_0 (seen_boosts s) t)]
                      else [])"
    by (rule fire(5))
next
  assume le: "n \<le> get_or_0 (seen_boosts s) t"
  note q = process_boosts_step_quiet[OF assms le, of e]
  show "alerts (process_boosts_step e b s) = alerts s" by (simp add: q)
  show "seen_boosts (process_boosts_step e b s) = seen_boosts s" by (simp add: q)
  show "boosts_detected (stats (process_boosts_step e b s)) = boosts_detected (stats s)"
    by (simp add: q)
next
  assume unseen: "seen_boosts s t = None"
  show "map alert_view (new_alerts s
              (fold (\<lambda>k. process_boosts e (Some (JList [boost_of c t k]))) [5, 5, 12, 12, 20] s))
            = [(NEW_BOOST, (c, t), [5], []),
               (NEW_BOOST, (c, t), [12], [(5, 7)]),
               (NEW_BOOST, (c, t), [20], [(12, 8)])]"
    by (rule boost_sequence_view(1)[OF assms(2) assms(4) unseen])
  show "seen_boosts
              (fold (\<lambda>k. process_boosts e (Some (JList [boost_of c t k]))) [5, 5, 12, 12, 20] s) t
            = Some 20"
    by (rule boost_sequence_view(2)[OF assms(2) assms(4) unseen])
qed

theorem boost_event_iff_total_exceeds_stored_witness:
  "seen_boosts (process_boosts_step offline_env (boost_of ''solana'' ''TokenA'' 5) initial_state)
     ''TokenA'' = Some 5
   \<and> boosts_detected (stats (process_boosts_step offline_env (boost_of ''solana'' ''TokenA'' 5)
        initial_state)) = 1
   \<and> alerts (process_boosts_step offline_env (boost_of ''solana'' ''TokenA'' 5)
        (initial_state\<lparr>seen_boosts := [''TokenA'' \<mapsto> 5]\<rparr>)) = []
   \<and> map alert_view (new_alerts initial_state
        (fold (\<lambda>k. process_boosts offline_env (Some (JList [boost_of ''solana'' ''TokenA'' k])))
           [5, 5, 12, 12, 20] initial_state))
      = [(NEW_BOOST, (''solana'', ''TokenA''), [5], []),
         (NEW_BOOST, (''solana'', ''TokenA''), [12], [(5, 7)]),
         (NEW_BOOST, (''solana'', ''TokenA''), [20], [(12, 8)])]"
  using boost_event_iff_total_exceeds_stored
          [of "boost_of ''solana'' ''TokenA'' 5" "''solana''" "''TokenA''" 5 initial_state offline_env]
        boost_event_iff_total_exceeds_stored
          [of "boost_of ''solana'' ''TokenA'' 5" "''solana''" "''TokenA''" 5
              "initial_state\<lparr>seen_boosts := [''TokenA'' \<mapsto> 5]\<rparr>" offline_env]
  by (simp add: boost_of_def initial_state_def initial_stats_def get_or_0_def)

text \<open>
  The claim as the specification words it has every one of the three alerts report
  the delta from the stored value, which for the first would be (0, +5).  The first
  alert of the run reports none.
\<close>

theorem boost_first_alert_reports_no_delta:
  "map reported_deltas (new_alerts initial_state
        (fold (\<lambda>k. process_boosts offline_env (Some (JList [boost_of ''solana'' ''TokenA'' k])))
           [5, 5, 12, 12, 20] initial_state))
     = [[], [(5, 7)], [(12, 8)]]
   \<and> map reported_deltas (new_alerts initial_state
        (fold (\<lambda>k. process_boosts offline_env (Some (JList [boost_of ''solana'' ''TokenA'' k])))
           [5, 5, 12, 12, 20] initial_state))
     \<noteq> [[(0, 5)], [(5, 7)], [(12, 8)]]"
proof -
  have u: "seen_boosts initial_state ''TokenA'' = None" by (simp add: initial_state_def)
  have d: "reported_deltas = (\<lambda>v. snd (snd (snd v))) \<circ> alert_view"
    by (rule ext) (simp add: alert_view_def)
  have "map reported_deltas (new_alerts initial_state
        (fold (\<lambda>k. process_boosts offline_env (Some (JList [boost_of ''solana'' ''TokenA'' k])))
           [5, 5, 12, 12, 20] initial_state))
     = map (\<lambda>v. snd (snd (snd v))) (map alert_view (new_alerts initial_state
        (fold (\<lambda>k. process_boosts offline_env (Some (JList [boost_of ''solana'' ''TokenA'' k])))
           [5, 5, 12, 12, 20] initial_state)))"
    by (simp only: d map_map)
  also have "\<dots> = [[], [(5, 7)], [(12, 8)]]"
  proof -
    have "''solana'' \<noteq> []" and "''TokenA'' \<noteq> []" by simp_all
    from boost_sequence_view(1)[OF this u, of offline_env] show ?thesis by simp
  qed
  finally show ?thesis by simp
qed

section \<open>Ads and profiles\<close>

text \<open>
  C2.  An ad (or profile) record with a chain and a token address whose key is not in
  the seen-set yet fires one AD (or PROFILE) alert for that key and puts the key
  into the seen-set; a record with the same key that is presented after any number
  of further turns of the driver loop, under any environment, fires nothing.
\<close>

theorem ad_and_profile_fire_on_first_occurrence_only:
  assumes "ad_valid a" "ad_valid a'" "ad_key a' = ad_key a" "ad_key a \<notin> seen_ads s"
    and "profile_valid p" "profile_valid p'" "profile_key p' = profile_key p"
        "profile_key p \<notin> seen_profiles s"
  shows "titled (process_ads_step e a s) = titled s @ [(NEW_AD, ad_key a)]
       \<and> ad_key a \<in> seen_ads (process_ads_step e a s)
       \<and> alerts (process_ads_step e2 a' ((poll_cycle e1 ^^ n) (process_ads_step e a s)))
           = alerts ((poll_cycle e1 ^^ n) (process_ads_step e a s))
       \<and> titled (process_profiles_step e p s) = titled s @ [(NEW_TOKEN_PROFILE, profile_key p)]
       \<and> profile_key p \<in> seen_profiles (process_profiles_step e p s)
       \<and> alerts (process_profiles_step e2 p' ((poll_cycle e1 ^^ n) (process_profiles_step e p s)))
           = alerts ((poll_cycle e1 ^^ n) (process_profiles_step e p s))"
proof (intro conjI)
  show "titled (process_ads_step e a s) = titled s @ [(NEW_AD, ad_key a)]"
    using assms(1,4) by (simp add: process_ads_step_fields)
  show in_a: "ad_key a \<in> seen_ads (process_ads_step e a s)"
    using assms(1) by (simp add: process_ads_step_fields)
  have "ad_key a' \<in> seen_ads ((poll_cycle e1 ^^ n) (process_ads_step e a s))"
    using grows_seen(1)[OF poll_cycles_grows in_a] assms(3) by simp
  from process_ads_step_seen[OF assms(2) this]
  show "alerts (process_ads_step e2 a' ((poll_cycle e1 ^^ n) (process_ads_step e a s)))
           = alerts ((poll_cycle e1 ^^ n) (process_ads_step e a s))" .
  show "titled (process_profiles_step e p s) = titled s @ [(NEW_TOKEN_PROFILE, profile_key p)]"
    using assms(5,8) by (simp add: process_profiles_step_fields)
  show in_p: "profile_key p \<in> seen_profiles (process_profiles_step e p s)"
    using assms(5) by (simp add: process_profiles_step_fields)
  have "profile_key p' \<in> seen_profiles ((poll_cycle e1 ^^ n) (process_profiles_step e p s))"
    using grows_seen(2)[OF poll_cycles_grows in_p] assms(7) by simp
  from process_profiles_step_seen[OF assms(6) this]
  show "alerts (process_profiles_step e2 p' ((poll_cycle e1 ^^ n) (process_profiles_step e p s)))
           = alerts ((poll_cycle e1 ^^ n) (process_profiles_step e p s))" .
qed

theorem ad_and_profile_fire_on_first_occurrence_only_witness:
  "titled (process_ads_step offline_env (ad_of ''solana'' ''TokenA'') initial_state)
     = [(NEW_AD, (''solana'', ''TokenA''))]
   \<and> (''solana'', ''TokenA'') \<in> seen_ads
        (process_ads_step offline_env (ad_of ''solana'' ''TokenA'') initial_state)
   \<and> alerts (process_ads_step offline_env (ad_of ''solana'' ''TokenA'')
        ((poll_cycle offline_env ^^ 3)
           (process_ads_step offline_env (ad_of ''solana'' ''TokenA'') initial_state)))
     = alerts ((poll_cycle offline_env ^^ 3)
           (process_ads_step offline_env (ad_of ''solana'' ''TokenA'') initial_state))
   \<and> titled (process_profiles_step offline_env (profile_of ''solana'' ''TokenA'' None None)
        initial_state)
     = [(NEW_TOKEN_PROFILE, (''solana'', ''TokenA''))]
   \<and> alerts (process_profiles_step offline_env (profile_of ''solana'' ''TokenA'' None None)
        ((poll_cycle offline_env ^^ 3)
           (process_profiles_step offline_env (profile_of ''solana'' ''TokenA'' None None)
              initial_state)))
     = alerts ((poll_cycle offline_env ^^ 3)
           (process_profiles_step offline_env (profile_of ''solana'' ''TokenA'' None None)
              initial_state))"
  using ad_and_profile_fire_on_first_occurrence_only
          [where a = "ad_of ''solana'' ''TokenA''" and a' = "ad_of ''solana'' ''TokenA''"
             and p = "profile_of ''solana'' ''TokenA'' None None"
             and p' = "profile_of ''solana'' ''TokenA'' None None"
             and s = initial_state and e = offline_env and ?e1.0 = offline_env and ?e2.0 = offline_env
             and n = 3]
  by (simp add: ad_of_def ad_valid_def ad_key_def profile_of_def profile_valid_def
        profile_key_def initial_state_def titled_def)

section \<open>The known-token set\<close>

text \<open>
  C5.  Every ad or profile record of a feed that carries a chain and a token address,
  and every boost record that carries a chain, a token address and a total amount,
  has its key in the known-token set after the feed is processed, whether or not it
  fires an alert; and a key of the known-token set is still there after every
  detector, after the order check, after start-up and after any number of turns of
  the driver loop.
\<close>

theorem known_tokens_registered_and_kept:
  "(a \<in> set ads \<and> ad_valid a \<longrightarrow> ad_key a \<in> known_tokens (process_ads e (Some (JList ads)) s))
   \<and> (p \<in> set profiles \<and> profile_valid p
        \<longrightarrow> profile_key p \<in> known_tokens (process_profiles e (Some (JList profiles)) s))
   \<and> (b \<in> set boosts \<and> boost_valid b
        \<longrightarrow> boost_key b \<in> known_tokens (process_boosts e (Some (JList boosts)) s))
   \<and> (k \<in> known_tokens s \<longrightarrow>
          k \<in> known_tokens (process_ads e feed_a s)
        \<and> k \<in> known_tokens (process_profiles e feed_p s)
        \<and> k \<in> known_tokens (process_boosts e feed_b s)
        \<and> k \<in> known_tokens (check_orders e s)
        \<and> k \<in> known_tokens (initialize e s)
        \<and> k \<in> known_tokens ((poll_cycle e ^^ n) s))"
proof (intro conjI impI)
  assume "a \<in> set ads \<and> ad_valid a"
  then show "ad_key a \<in> known_tokens (process_ads e (Some (JList ads)) s)"
    by (simp add: process_ads_def fold_known_tokens_ads)
next
  assume "p \<in> set profiles \<and> profile_valid p"
  then show "profile_key p \<in> known_tokens (process_profiles e (Some (JList profiles)) s)"
    by (simp add: process_profiles_def fold_known_tokens_profiles)
next
  assume "b \<in> set boosts \<and> boost_valid b"
  then show "boost_key b \<in> known_tokens (process_boosts e (Some (JList boosts)) s)"
    by (simp add: process_boosts_def fold_known_tokens_boosts)
next
  assume k: "k \<in> known_tokens s"
  show "k \<in> known_tokens (process_ads e feed_a s)"
    by (rule grows_known[OF processes_grow(1) k])
  show "k \<in> known_tokens (process_profiles e feed_p s)"
    by (rule grows_known[OF processes_grow(2) k])
  show "k \<in> known_tokens (process_boosts e feed_b s)"
    by (rule grows_known[OF processes_grow(3) k])
  show "k \<in> known_tokens (check_orders e s)"
    by (rule grows_known[OF check_orders_grows k])
  show "k \<in> known_tokens (initialize e s)"
  proof -
    from initialize_both[of s e] have "grows s (initialize e s)" by simp
    from grows_known[OF this k] show ?thesis .
  qed
  show "k \<in> known_tokens ((poll_cycle e ^^ n) s)"
    by (rule grows_known[OF poll_cycles_grows k])
qed

theorem known_tokens_registered_and_kept_witness:
  "(''solana'', ''TokenA'') \<in> known_tokens
      (process_ads offline_env (Some (JList [ad_of ''solana'' ''TokenA'']))
         (initial_state\<lparr>seen_ads := {(''solana'', ''TokenA'')}, known_tokens := {(''bsc'', ''TokenB'')}\<rparr>))
   \<and> (''solana'', ''TokenA'') \<in> known_tokens
      (process_profiles offline_env (Some (JList [profile_of ''solana'' ''TokenA'' None None]))
         (initial_state\<lparr>seen_ads := {(''solana'', ''TokenA'')}, known_tokens := {(''bsc'', ''TokenB'')}\<rparr>))
   \<and> (''solana'', ''TokenA'') \<in> known_tokens
      (process_boosts offline_env (Some (JList [boost_of ''solana'' ''TokenA'' 0]))
         (initial_state\<lparr>seen_ads := {(''solana'', ''TokenA'')}, known_tokens := {(''bsc'', ''TokenB'')}\<rparr>))
   \<and> (''bsc'', ''TokenB'') \<in> known_tokens
      (check_orders offline_env
         (initial_state\<lparr>seen_ads := {(''solana'', ''TokenA'')}, known_tokens := {(''bsc'', ''TokenB'')}\<rparr>))
   \<and> (''bsc'', ''TokenB'') \<in> known_tokens
      ((poll_cycle offline_env ^^ 5)
         (initial_state\<lparr>seen_ads := {(''solana'', ''TokenA'')}, known_tokens := {(''bsc'', ''TokenB'')}\<rparr>))"
  using known_tokens_registered_and_kept
          [where a = "ad_of ''solana'' ''TokenA''" and ads = "[ad_of ''solana'' ''TokenA'']"
             and p = "profile_of ''solana'' ''TokenA'' None None"
             and profiles = "[profile_of ''solana'' ''TokenA'' None None]"
             and b = "boost_of ''solana'' ''TokenA'' 0"
             and boosts = "[boost_of ''solana'' ''TokenA'' 0]"
             and k = "(''bsc'', ''TokenB'')" and e = offline_env and n = 5
             and s = "initial_state\<lparr>seen_ads := {(''solana'', ''TokenA'')},
                                     known_tokens := {(''bsc'', ''TokenB'')}\<rparr>"]
  by (simp add: ad_of_def ad_valid_def ad_key_def profile_of_def profile_valid_def profile_key_def
        boost_of_def boost_valid_def boost_key_def)

text \<open>
  The claim as the specification words it covers every boost record that carries a
  chain and a token address.  A boost record without a total amount is skipped before
  its key is registered.
\<close>

theorem boost_without_total_not_registered:
  "truthy_str (bo_chainId \<lparr>bo_chainId = Some ''solana'', bo_tokenAddress = Some ''TokenA'',
                           bo_totalAmount = None, bo_amount = Some 10\<rparr>)
   \<and> truthy_str (bo_tokenAddress \<lparr>bo_chainId = Some ''solana'', bo_tokenAddress = Some ''TokenA'',
                           bo_totalAmount = None, bo_amount = Some 10\<rparr>)
   \<and> (''solana'', ''TokenA'') \<notin> known_tokens
        (process_boosts offline_env
           (Some (JList [\<lparr>bo_chainId = Some ''solana'', bo_tokenAddress = Some ''TokenA'',
                          bo_totalAmount = None, bo_amount = Some 10\<rparr>])) initial_state)"
  by (simp add: process_boosts_def process_boosts_step_def initial_state_def)

section \<open>The profile metadata cache\<close>

text \<open>
  C7.  For a profile record with a chain and a token address, seen before or not: when
  it carries an image (openGraph, else header, else icon) the stored header image of
  its key becomes that image, and when it carries none the stored header images are
  unchanged; likewise the stored social links become its links when it has some and
  are unchanged otherwise.  After two observations of the same key, the second of
  which carries an image, the stored header image is the one of the second.
\<close>

theorem profile_metadata_last_write_wins:
  assumes "profile_valid p" "profile_valid p'" "profile_key p' = profile_key p"
  shows "(truthy_str (profile_image p) \<longrightarrow>
            profile_headers (process_profiles_step e p s) (profile_key p) = profile_image p)
       \<and> (\<not> truthy_str (profile_image p) \<longrightarrow>
            profile_headers (process_profiles_step e p s) = profile_headers s)
       \<and> (truthy_links (pf_links p) \<longrightarrow>
            profile_socials (process_profiles_step e p s) (profile_key p) = pf_links p)
       \<and> (\<not> truthy_links (pf_links p) \<longrightarrow>
            profile_socials (process_profiles_step e p s) = profile_socials s)
       \<and> (truthy_str (profile_image p') \<longrightarrow>
            profile_headers (process_profiles_step e2 p' (process_profiles_step e p s)) (profile_key p)
              = profile_image p')"
  using assms
  by (auto simp add: process_profiles_step_fields truthy_links_def truthy_str_the
        split: option.splits)

theorem profile_metadata_last_write_wins_witness:
  "profile_headers (process_profiles_step offline_env
       (profile_of ''solana'' ''TokenA'' (Some ''b.png'') None)
       (process_profiles_step offline_env
          (profile_of ''solana'' ''TokenA'' (Some ''a.png'') None) initial_state))
     (''solana'', ''TokenA'') = Some ''b.png''
   \<and> profile_socials (process_profiles_step offline_env
       (profile_of ''solana'' ''TokenA'' (Some ''a.png'') None) initial_state)
     = profile_socials initial_state"
  using profile_metadata_last_write_wins
          [where p = "profile_of ''solana'' ''TokenA'' (Some ''a.png'') None"
             and p' = "profile_of ''solana'' ''TokenA'' (Some ''b.png'') None"
             and s = initial_state and e = offline_env and ?e2.0 = offline_env]
  by (simp add: profile_of_def profile_valid_def profile_key_def profile_image_def
        truthy_links_def)

text \<open>
  The claim as the specification words it overwrites the stored values at every
  observation.  An observation without an image leaves the image of the earlier
  observation in place.
\<close>

theorem profile_without_image_keeps_old_header:
  "profile_valid (profile_of ''solana'' ''TokenA'' None None)
   \<and> profile_image (profile_of ''solana'' ''TokenA'' None None) = None
   \<and> profile_headers
        (fold (process_profiles_step offline_env)
           [profile_of ''solana'' ''TokenA'' (Some ''a.png'') None,
            profile_of ''solana'' ''TokenA'' None None] initial_state)
        (''solana'', ''TokenA'') = Some ''a.png''"
  by (simp add: process_profiles_step_fields profile_valid_def profile_key_def profile_image_def
        profile_of_def truthy_links_def initial_state_def)

section \<open>The order checker\<close>

text \<open>
  C3.  An order examined by the order checker is reportable when its payment timestamp
  is at or after the process start and strictly greater than the timestamp stored for
  the token (0 when there is none).  A reportable order fires one ORDER alert, stores
  its timestamp and counts one order; any other order changes nothing, in particular
  every order paid before the start.  For two orders at T1 < T2, both at or after the
  start and T1 above the stored timestamp, two alerts fire; the stored value against
  which the second is compared is T1, and T2 is stored in the end.
\<close>

theorem order_event_iff_after_start_and_newer:
  "(reportable e s t order \<longrightarrow>
       seen_orders (check_orders_order e c t order s) = (seen_orders s)(t \<mapsto> order_ts order)
     \<and> orders_detected (stats (check_orders_order e c t order s)) = orders_detected (stats s) + 1
     \<and> (\<exists>a. alerts (check_orders_order e c t order s) = alerts s @ [a]
             \<and> fst a = NEW_ORDER (order_type_of order) \<and> alert_key a = (c, t)
             \<and> reported_paid_at a = [order_ts order]))
   \<and> (\<not> reportable e s t order \<longrightarrow> check_orders_order e c t order s = s)
   \<and> (order_ts order < BOT_START_MS e \<longrightarrow> check_orders_order e c t order s = s)
   \<and> (BOT_START_MS e \<le> t1 \<and> t1 < t2 \<and> get_or_0 (seen_orders s) t < t1 \<longrightarrow>
        titled (fold (check_orders_order e c t) [order_at t1, order_at t2] s)
          = titled s @ [(NEW_ORDER ''unknown'', (c, t)), (NEW_ORDER ''unknown'', (c, t))]
      \<and> get_or_0 (seen_orders (check_orders_order e c t (order_at t1) s)) t = t1
      \<and> seen_orders (fold (check_orders_order e c t) [order_at t1, order_at t2] s) t = Some t2)"
proof (intro conjI impI)
  assume r: "reportable e s t order"
  show "seen_orders (check_orders_order e c t order s) = (seen_orders s)(t \<mapsto> order_ts order)"
    using r by (simp add: check_orders_order_fields)
  show "orders_detected (stats (check_orders_order e c t order s)) = orders_detected (stats s) + 1"
    using r by (simp add: check_orders_order_fields)
  show "\<exists>a. alerts (check_orders_order e c t order s) = alerts s @ [a]
             \<and> fst a = NEW_ORDER (order_type_of order) \<and> alert_key a = (c, t)
             \<and> reported_paid_at a = [order_ts order]"
    by (rule check_orders_order_fire[OF r])
next
  assume "\<not> reportable e s t order"
  then show "check_orders_order e c t order s = s" by (rule check_orders_order_quiet)
next
  assume "order_ts order < BOT_START_MS e"
  then have "\<not> reportable e s t order" by (simp add: reportable_def)
  then show "check_orders_order e c t order s = s" by (rule check_orders_order_quiet)
next
  assume h: "BOT_START_MS e \<le> t1 \<and> t1 < t2 \<and> get_or_0 (seen_orders s) t < t1"
  define s1 where "s1 = check_orders_order e c t (order_at t1) s"
  have ts: "order_ts (order_at t1) = t1" "order_ts (order_at t2) = t2"
    "order_type_of (order_at t1) = ''unknown''" "order_type_of (order_at t2) = ''unknown''"
    by (simp_all add: order_ts_def order_at_def order_type_of_def)
  have r1: "reportable e s t (order_at t1)" using h by (simp add: reportable_def ts)
  have so1: "seen_orders s1 = (seen_orders s)(t \<mapsto> t1)"
    unfolding s1_def using r1 by (simp add: check_orders_order_fields ts)
  then have g1: "get_or_0 (seen_orders s1) t = t1" by (simp add: get_or_0_def)
  have r2: "reportable e s1 t (order_at t2)" using h g1 by (simp add: reportable_def ts)
  have t1: "titled s1 = titled s @ [(NEW_ORDER ''unknown'', (c, t))]"
    unfolding s1_def using r1 by (simp add: check_orders_order_fields ts)
  have t2: "titled (check_orders_order e c t (order_at t2) s1)
              = titled s1 @ [(NEW_ORDER ''unknown'', (c, t))]"
    using r2 by (simp add: check_orders_order_fields ts)
  show "titled (fold (check_orders_order e c t) [order_at t1, order_at t2] s)
          = titled s @ [(NEW_ORDER ''unknown'', (c, t)), (NEW_ORDER ''unknown'', (c, t))]"
    using t1 t2 by (simp add: s1_def)
  show "get_or_0 (seen_orders (check_orders_order e c t (order_at t1) s)) t = t1"
    using g1 by (simp add: s1_def)
  show "seen_orders (fold (check_orders_order e c t) [order_at t1, order_at t2] s) t = Some t2"
    using r2 by (simp add: check_orders_order_fields ts s1_def[symmetric])
qed

theorem order_event_iff_after_start_and_newer_witness:
  "reportable offline_env initial_state ''TokenA'' (order_at 2000)
   \<and> seen_orders (check_orders_order offline_env ''solana'' ''TokenA'' (order_at 2000)
        initial_state) ''TokenA'' = Some 2000
   \<and> \<not> reportable offline_env initial_state ''TokenA'' (order_at 999)
   \<and> check_orders_order offline_env ''solana'' ''TokenA'' (order_at 999) initial_state
       = initial_state
   \<and> titled (fold (check_orders_order offline_env ''solana'' ''TokenA'')
               [order_at 2000, order_at 3000] initial_state)
       = [(NEW_ORDER ''unknown'', (''solana'', ''TokenA'')),
          (NEW_ORDER ''unknown'', (''solana'', ''TokenA''))]
   \<and> seen_orders (fold (check_orders_order offline_env ''solana'' ''TokenA'')
               [order_at 2000, order_at 3000] initial_state) ''TokenA'' = Some 3000"
  using order_event_iff_after_start_and_newer
          [where e = offline_env and s = initial_state and t = "''TokenA''" and c = "''solana''"
             and order = "order_at 2000" and ?t1.0 = 2000 and ?t2.0 = 3000]
        order_event_iff_after_start_and_newer
          [where e = offline_env and s = initial_state and t = "''TokenA''" and c = "''solana''"
             and order = "order_at 999" and ?t1.0 = 2000 and ?t2.0 = 3000]
  by (simp add: reportable_def order_ts_def order_at_def get_or_0_def initial_state_def
        offline_env_def titled_def)

section \<open>Run statistics\<close>

text \<open>
  C10.  After start-up and any number of turns of the driver loop, under any
  environment, orders_detected is the number of ORDER alerts plus the number of
  PROFILE alerts, ads_detected the number of AD alerts and boosts_detected the number
  of BOOST alerts.  A new profile adds one to orders_detected and nothing to the other
  two, as a reportable order does; and the statistics consist of the five counters
  polls, ads_detected, boosts_detected, orders_detected and errors, none of which is
  for profiles.
\<close>

theorem orders_counter_counts_orders_and_profiles:
  "orders_detected (stats (main e n))
     = count_alerts is_order_title (main e n) + count_alerts (\<lambda>t. t = NEW_TOKEN_PROFILE) (main e n)
   \<and> ads_detected (stats (main e n)) = count_alerts (\<lambda>t. t = NEW_AD) (main e n)
   \<and> boosts_detected (stats (main e n)) = count_alerts (\<lambda>t. t = NEW_BOOST) (main e n)
   \<and> (profile_valid p \<and> profile_key p \<notin> seen_profiles s \<longrightarrow>
        orders_detected (stats (process_profiles_step e p s)) = orders_detected (stats s) + 1
      \<and> ads_detected (stats (process_profiles_step e p s)) = ads_detected (stats s)
      \<and> boosts_detected (stats (process_profiles_step e p s)) = boosts_detected (stats s)
      \<and> titled (process_profiles_step e p s) = titled s @ [(NEW_TOKEN_PROFILE, profile_key p)])
   \<and> (reportable e s t order \<longrightarrow>
        orders_detected (stats (check_orders_order e c t order s)) = orders_detected (stats s) + 1)
   \<and> stats s = \<lparr>polls = polls (stats s), ads_detected = ads_detected (stats s),
                 boosts_detected = boosts_detected (stats s),
                 orders_detected = orders_detected (stats s), errors = errors (stats s)\<rparr>"
proof -
  have "stats_match (main e n)" by (rule main_stats_match)
  then show ?thesis
    by (simp add: stats_match_def process_profiles_step_fields check_orders_order_fields)
qed

theorem orders_counter_counts_orders_and_profiles_witness:
  "profile_valid (profile_of ''solana'' ''TokenA'' None None)
   \<and> profile_key (profile_of ''solana'' ''TokenA'' None None) \<notin> seen_profiles initial_state
   \<and> orders_detected (stats (process_profiles_step offline_env
        (profile_of ''solana'' ''TokenA'' None None) initial_state)) = 1
   \<and> ads_detected (stats (process_profiles_step offline_env
        (profile_of ''solana'' ''TokenA'' None None) initial_state)) = 0
   \<and> titled (process_profiles_step offline_env
        (profile_of ''solana'' ''TokenA'' None None) initial_state)
       = [(NEW_TOKEN_PROFILE, (''solana'', ''TokenA''))]
   \<and> reportable offline_env initial_state ''TokenA'' (order_at 2000)
   \<and> orders_detected (stats (check_orders_order offline_env ''solana'' ''TokenA'' (order_at 2000)
        initial_state)) = 1"
  using orders_counter_counts_orders_and_profiles
          [where p = "profile_of ''solana'' ''TokenA'' None None" and s = initial_state
             and e = offline_env and t = "''TokenA''" and order = "order_at 2000"
             and c = "''solana''" and n = 0]
  by (simp add: profile_of_def profile_valid_def profile_key_def initial_state_def
        initial_stats_def titled_def reportable_def order_ts_def order_at_def get_or_0_def
        offline_env_def)

section \<open>The fetcher\<close>

text \<open>
  C4.  \<open>fetch_json\<close> returns on every outcome of the request.  A response whose status
  is not 200 yields the absent value and leaves the error counter as it is; an
  exception of the transport and a body that fails to parse yield the absent value and
  add one to the error counter, as does every exception that leaves the \<open>try\<close> block.
  A response with status 500 leaves the same state as a response with status 200 and
  an empty list, and the absent value is handled like the empty list by the detectors,
  by the driver loop and by the enricher.
\<close>

theorem fetch_json_absent_on_failure:
  "(status_code \<noteq> 200 \<longrightarrow>
      fetch_json (Response status_code body) s = (None, s\<lparr>clock := clock s + 1\<rparr>))
   \<and> fetch_json (Raised ex) s
       = (None, s\<lparr>clock := clock s + 1, stats := (stats s)\<lparr>errors := errors (stats s) + 1\<rparr>\<rparr>)
   \<and> fetch_json (Response 200 (Inl ex)) s
       = (None, s\<lparr>clock := clock s + 1, stats := (stats s)\<lparr>errors := errors (stats s) + 1\<rparr>\<rparr>)
   \<and> fetch_json (Response 200 (Inr v)) s = (v, s\<lparr>clock := clock s + 1\<rparr>)
   \<and> (fetch_json_try r = Inl ex \<longrightarrow>
        fst (fetch_json r s) = None
      \<and> errors (stats (snd (fetch_json r s))) = errors (stats s) + 1)
   \<and> fetch_json (Response 500 body) s
       = (None, snd (fetch_json (Response 200 (Inr (Some (JList [])))) s))
   \<and> process_feeds e None profiles boosts s = process_feeds e (Some (JList [])) profiles boosts s
   \<and> process_feeds e ads None boosts s = process_feeds e ads (Some (JList [])) boosts s
   \<and> process_feeds e ads profiles None s = process_feeds e ads profiles (Some (JList [])) s
   \<and> process_ads e None s = process_ads e (Some (JList [])) s
   \<and> process_profiles e None s = process_profiles e (Some (JList [])) s
   \<and> process_boosts e None s = process_boosts e (Some (JList [])) s
   \<and> (tokens_api e (clock s) c t = Response 500 body'
        \<and> tokens_api e' (clock s) c t = Response 200 (Inr (Some (JList [])))
      \<longrightarrow> get_token_info e c t s = get_token_info e' c t s)"
proof (intro conjI impI)
  assume "status_code \<noteq> 200"
  then show "fetch_json (Response status_code body) s = (None, s\<lparr>clock := clock s + 1\<rparr>)"
    by (simp add: fetch_json_def fetch_json_try_def)
next
  show "fetch_json (Raised ex) s
       = (None, s\<lparr>clock := clock s + 1, stats := (stats s)\<lparr>errors := errors (stats s) + 1\<rparr>\<rparr>)"
    by (simp add: fetch_json_def fetch_json_try_def)
next
  show "fetch_json (Response 200 (Inl ex)) s
       = (None, s\<lparr>clock := clock s + 1, stats := (stats s)\<lparr>errors := errors (stats s) + 1\<rparr>\<rparr>)"
    by (simp add: fetch_json_def fetch_json_try_def)
next
  show "fetch_json (Response 200 (Inr v)) s = (v, s\<lparr>clock := clock s + 1\<rparr>)"
    by (simp add: fetch_json_def fetch_json_try_def)
next
  assume h: "fetch_json_try r = Inl ex"
  then show "fst (fetch_json r s) = None" by (simp add: fetch_json_def)
  from h show "errors (stats (snd (fetch_json r s))) = errors (stats s) + 1"
    by (simp add: fetch_json_def)
next
  show "fetch_json (Response 500 body) s
       = (None, snd (fetch_json (Response 200 (Inr (Some (JList [])))) s))"
    by (simp add: fetch_json_def fetch_json_try_def)
next
  show "process_feeds e None profiles boosts s = process_feeds e (Some (JList [])) profiles boosts s"
    by (simp add: process_feeds_def)
  show "process_feeds e ads None boosts s = process_feeds e ads (Some (JList [])) boosts s"
    by (simp add: process_feeds_def)
  show "process_feeds e ads profiles None s = process_feeds e ads profiles (Some (JList [])) s"
    by (simp add: process_feeds_def)
  show "process_ads e None s = process_ads e (Some (JList [])) s" by (rule process_empty_feed)
  show "process_profiles e None s = process_profiles e (Some (JList [])) s"
    by (rule process_empty_feed)
  show "process_boosts e None s = process_boosts e (Some (JList [])) s"
    by (rule process_empty_feed)
next
  assume "tokens_api e (clock s) c t = Response 500 body'
        \<and> tokens_api e' (clock s) c t = Response 200 (Inr (Some (JList [])))"
  then show "get_token_info e c t s = get_token_info e' c t s"
    by (simp add: get_token_info_def fetch_json_def fetch_json_try_def)
qed

theorem fetch_json_absent_on_failure_witness:
  "(500::int) \<noteq> 200
   \<and> fetch_json (Response 500 (Inr (Some (JList [ad_of ''solana'' ''TokenA''])))) initial_state
       = (None, initial_state\<lparr>clock := clock initial_state + 1\<rparr>)
   \<and> fetch_json_try (Response 200 (Inl JSONDecodeError) :: ad payload option http)
       = Inl JSONDecodeError
   \<and> fst (fetch_json (Response 200 (Inl JSONDecodeError) :: ad payload option http) initial_state)
       = None
   \<and> errors (stats (snd (fetch_json (Response 200 (Inl JSONDecodeError) :: ad payload option http)
        initial_state))) = errors (stats initial_state) + 1
   \<and> tokens_api offline_env (clock initial_state) ''solana'' ''TokenA''
       = Response 500 (Inl JSONDecodeError)
   \<and> tokens_api (offline_env\<lparr>tokens_api := (\<lambda>n c t. Response 200 (Inr (Some (JList []))))\<rparr>)
        (clock initial_state) ''solana'' ''TokenA'' = Response 200 (Inr (Some (JList [])))
   \<and> get_token_info offline_env ''solana'' ''TokenA'' initial_state
       = get_token_info (offline_env\<lparr>tokens_api := (\<lambda>n c t. Response 200 (Inr (Some (JList []))))\<rparr>)
           ''solana'' ''TokenA'' initial_state"
proof -
  have h1: "(500::int) \<noteq> 200" by simp
  have h2: "fetch_json_try (Response 200 (Inl JSONDecodeError) :: ad payload option http)
       = Inl JSONDecodeError"
    by (simp add: fetch_json_try_def)
  have h3: "tokens_api offline_env (clock initial_state) ''solana'' ''TokenA''
       = Response 500 (Inl JSONDecodeError)"
    by (simp add: offline_env_def)
  have h4: "tokens_api (offline_env\<lparr>tokens_api := (\<lambda>n c t. Response 200 (Inr (Some (JList []))))\<rparr>)
        (clock initial_state) ''solana'' ''TokenA'' = Response 200 (Inr (Some (JList [])))"
    by simp
  from h1 h2 h3 h4
    fetch_json_absent_on_failure
          [where status_code = 500 and body = "Inr (Some (JList [ad_of ''solana'' ''TokenA'']))"
             and s = initial_state
             and r = "Response 200 (Inl JSONDecodeError) :: ad payload option http"
             and ex = JSONDecodeError and e = offline_env
             and e' = "offline_env\<lparr>tokens_api := (\<lambda>n c t. Response 200 (Inr (Some (JList []))))\<rparr>"
             and c = "''solana''" and t = "''TokenA''" and body' = "Inl JSONDecodeError"
             and v = None and ads = None and profiles = None and boosts = None]
  show ?thesis by blast
qed

text \<open>
  The claim as the specification words it has a non-200 response increment the error
  counter.  After a response with status 500 the counter is what it was.
\<close>

theorem fetch_json_500_leaves_error_counter:
  "fst (fetch_json (Response 500 (Inr None) :: ad payload option http) initial_state) = None
   \<and> errors (stats (snd (fetch_json (Response 500 (Inr None) :: ad payload option http)
        initial_state))) = errors (stats initial_state)"
  by (simp add: fetch_json_def fetch_json_try_def)

section \<open>Image selection\<close>

text \<open>
  C8.  For every \<open>extra_info\<close> (absent, empty, with or without a header image), chain and
  token address: the value after the second assignment is truthy, so the condition of
  the thumbnail branch is false and the result is the value after the second
  assignment; the result is the header image of \<open>extra_info\<close> when that is truthy and the
  chart URL otherwise, and is never absent.  The chart URL ends with the width and
  height parameters.  With the \<open>extra_info\<close> that \<open>print_alert\<close> builds, the header image
  is the one cached for the (chain, token) key.
\<close>

theorem image_is_header_or_chart:
  "truthy_xval (image_second_try (image_first_try extra) c t)
   \<and> format_telegram_alert_image extra c t
       = (if truthy_xval (image_first_try extra) then image_first_try extra
          else Some (XStr (chart_image_url c t)))
   \<and> format_telegram_alert_image extra c t \<noteq> None
   \<and> format_telegram_alert_image extra c t
       = image_second_try (image_first_try extra) c t
   \<and> chart_image_url c t
       = ''https://api.dexscreener.com/token-chart-img/'' @ c @ ''/'' @ t @ ''?w=800&h=450''
   \<and> format_telegram_alert_image (Some (attach_profile_data s c t)) c t
       = (if c \<noteq> [] \<and> t \<noteq> [] \<and> truthy_str (profile_headers s (c, t))
          then Some (XStr (the (profile_headers s (c, t))))
          else Some (XStr (chart_image_url c t)))"
proof -
  have chart: "truthy_xval (Some (XStr (chart_image_url c t)))"
    by (simp add: chart_image_url_def)
  have second: "truthy_xval (image_second_try (image_first_try extra) c t)"
    using chart by (simp add: image_second_try_def)
  have eq: "format_telegram_alert_image extra c t = image_second_try (image_first_try extra) c t"
    using second by (simp add: format_telegram_alert_image_def image_last_resort_def)
  have nn: "format_telegram_alert_image extra c t \<noteq> None"
    using second unfolding eq by (cases "image_second_try (image_first_try extra) c t") simp_all
  have sel: "format_telegram_alert_image extra c t
       = (if truthy_xval (image_first_try extra) then image_first_try extra
          else Some (XStr (chart_image_url c t)))"
    unfolding eq by (simp add: image_second_try_def)
  have first: "image_first_try (Some (attach_profile_data s c t))
       = (if c \<noteq> [] \<and> t \<noteq> [] \<and> truthy_str (profile_headers s (c, t))
          then Some (XStr (the (profile_headers s (c, t)))) else None)"
    by (auto simp add: image_first_try_def attach_profile_data_def split: option.splits)
  have cached: "format_telegram_alert_image (Some (attach_profile_data s c t)) c t
       = (if c \<noteq> [] \<and> t \<noteq> [] \<and> truthy_str (profile_headers s (c, t))
          then Some (XStr (the (profile_headers s (c, t))))
          else Some (XStr (chart_image_url c t)))"
  proof -
    have "format_telegram_alert_image (Some (attach_profile_data s c t)) c t
            = image_second_try (image_first_try (Some (attach_profile_data s c t))) c t"
      using chart
      by (simp add: format_telegram_alert_image_def image_last_resort_def image_second_try_def)
    also have "\<dots> = (if c \<noteq> [] \<and> t \<noteq> [] \<and> truthy_str (profile_headers s (c, t))
          then Some (XStr (the (profile_headers s (c, t))))
          else Some (XStr (chart_image_url c t)))"
      unfolding first by (cases "profile_headers s (c, t)") (simp_all add: image_second_try_def)
    finally show ?thesis .
  qed
  have url: "chart_image_url c t
       = ''https://api.dexscreener.com/token-chart-img/'' @ c @ ''/'' @ t @ ''?w=800&h=450''"
    by (simp add: chart_image_url_def)
  from second sel nn eq url cached show ?thesis by blast
qed

section \<open>Delivery\<close>

text \<open>
  C9.  With Telegram configured and answering every POST with HTTP 500, one alert
  issues three POSTs: the photo, the text fallback inside \<open>send_telegram_photo\<close>, and
  the same text once more from \<open>print_alert\<close>, whose own fallback runs whenever
  \<open>send_telegram_photo\<close> returns False.  Both text failures are logged.  (In general,
  \<open>print_alert_outbox\<close>: the text is posted twice whenever the photo and the first
  text fail, once when only the photo fails, and not at all when the photo succeeds.)
\<close>

theorem failed_delivery_posts_text_twice:
  "outbox (print_alert telegram_down_env NEW_AD
             [Chain_line ''solana'', Address_line ''TokenA''] initial_state)
     = [SendPhoto (Some (XStr (chart_image_url ''solana'' ''TokenA'')))
          (Alert_message NEW_AD [Chain_line ''solana'', Address_line ''TokenA''] []),
        SendMessage (Alert_message NEW_AD [Chain_line ''solana'', Address_line ''TokenA''] []),
        SendMessage (Alert_message NEW_AD [Chain_line ''solana'', Address_line ''TokenA''] [])]
   \<and> logged (print_alert telegram_down_env NEW_AD
             [Chain_line ''solana'', Address_line ''TokenA''] initial_state)
     = [Warn_send_failed 500, Warn_send_failed 500]"
  by (simp add: print_alert_def send_telegram_photo_def send_telegram_message_def
        telegram_down_env_def offline_env_def initial_state_def parse_lines_solana
        attach_profile_data_def format_telegram_alert_image_def image_last_resort_def
        image_second_try_def image_first_try_def chart_image_url_def Let_def)

section \<open>Price formatting\<close>

text \<open>
  C6.  For a finite input \<open>p \<ge> 1\<close> the output is the integer part grouped by thousands
  (its digits with a comma after every third one counted from the right, none in
  front), a point and exactly two decimals; integer part and decimals are the digits
  of \<open>p\<close> rounded to two decimals.  For a finite \<open>0 < q < 1\<close> the output is \<open>q\<close> rounded to
  eight decimals with the trailing zeros trimmed, and without the point when no
  decimal is left: at most eight decimals, the last of which is not a zero.  The
  inputs 1234.5, 1, 1000 and 1234567.891 give "1,234.50", "1.00", "1,000.00" and
  "1,234,567.89"; the input 0.000001234, as the double of that literal and as the
  exact decimal 617/500000000, gives "0.00000123".  An input that \<open>float\<close> reads as an
  infinity or as NaN gives "inf", "-inf" or "nan", and the negative zero gives "-0".
  An input that \<open>float\<close> rejects gives "N/A", as does every exception inside the
  function: it never raises.
\<close>

theorem format_price_rounds_and_trims:
  "(1 \<le> p \<longrightarrow>
      format_price (Inr (Finite p))
        = group_thousands (digits (scaled 2 p div 100)) @ ''.''
          @ zero_pad 2 (digits (scaled 2 p mod 100))
    \<and> grouped_by_three (group_thousands (digits (scaled 2 p div 100)))
          (digits (scaled 2 p div 100))
    \<and> decimal_value (digits (scaled 2 p div 100)) = scaled 2 p div 100
    \<and> length (zero_pad 2 (digits (scaled 2 p mod 100))) = 2
    \<and> decimal_value (zero_pad 2 (digits (scaled 2 p mod 100))) = scaled 2 p mod 100
    \<and> \<bar>of_nat (scaled 2 p) / 10 ^ 2 - p\<bar> \<le> 1 / (2 * 10 ^ 2))
   \<and> (0 < q \<and> q < 1 \<longrightarrow>
      (let fraction = rstrip CHR ''0'' (zero_pad 8 (digits (scaled 8 q mod 10 ^ 8)));
           whole = digits (scaled 8 q div 10 ^ 8)
       in format_price (Inr (Finite q))
            = (if fraction = [] then whole else whole @ ''.'' @ fraction)
          \<and> length fraction \<le> 8
          \<and> (fraction \<noteq> [] \<longrightarrow> last fraction \<noteq> CHR ''0''))
    \<and> decimal_value (digits (scaled 8 q div 10 ^ 8)) = scaled 8 q div 10 ^ 8
    \<and> decimal_value (zero_pad 8 (digits (scaled 8 q mod 10 ^ 8))) = scaled 8 q mod 10 ^ 8
    \<and> \<bar>of_nat (scaled 8 q) / 10 ^ 8 - q\<bar> \<le> 1 / (2 * 10 ^ 8))
   \<and> format_price (Inr (Finite (2469 / 2))) = ''1,234.50''
   \<and> format_price (Inr (Finite 1)) = ''1.00''
   \<and> format_price (Inr (Finite 1000)) = ''1,000.00''
   \<and> format_price (Inr (Finite (5302428716536693 / 4294967296))) = ''1,234,567.89''
   \<and> format_price (Inr (Finite (2913700119930571 / 2361183241434822606848))) = ''0.00000123''
   \<and> format_price (Inr (Finite (617 / 500000000))) = ''0.00000123''
   \<and> format_price (Inr Pos_inf) = ''inf''
   \<and> format_price (Inr Neg_inf) = ''-inf''
   \<and> format_price (Inr NaN) = ''nan''
   \<and> format_price (Inr Neg_zero) = ''-0''
   \<and> format_price (Inl ex) = ''N/A''
   \<and> (format_price_try price = Inl ex \<longrightarrow> format_price price = ''N/A'')"
proof (intro conjI impI)
  assume p: "1 \<le> p"
  show "format_price (Inr (Finite p))
        = group_thousands (digits (scaled 2 p div 100)) @ ''.''
          @ zero_pad 2 (digits (scaled 2 p mod 100))"
    by (rule format_price_ge_1[OF p])
  show "grouped_by_three (group_thousands (digits (scaled 2 p div 100)))
          (digits (scaled 2 p div 100))"
    by (rule group_thousands_grouped) (rule digits_no_comma)
  show "decimal_value (digits (scaled 2 p div 100)) = scaled 2 p div 100"
    by (rule decimal_value_digits)
  show "length (zero_pad 2 (digits (scaled 2 p mod 100))) = 2"
    using fraction_length[of 2 "scaled 2 p"] by simp
  show "decimal_value (zero_pad 2 (digits (scaled 2 p mod 100))) = scaled 2 p mod 100"
    by (rule decimal_value_zero_pad)
  from p have "0 \<le> p" by simp
  then show "\<bar>of_nat (scaled 2 p) / 10 ^ 2 - p\<bar> \<le> 1 / (2 * 10 ^ 2)" by (rule scaled_close)
next
  assume q: "0 < q \<and> q < 1"
  then have q0: "0 \<le> q" and q1: "q < 1" by simp_all
  have len: "length (rstrip CHR ''0'' (zero_pad 8 (digits (scaled 8 q mod 10 ^ 8)))) \<le> 8"
    using rstrip_length[of "CHR ''0''" "zero_pad 8 (digits (scaled 8 q mod 10 ^ 8))"]
      fraction_length[of 8 "scaled 8 q"] by simp
  show "let fraction = rstrip CHR ''0'' (zero_pad 8 (digits (scaled 8 q mod 10 ^ 8)));
           whole = digits (scaled 8 q div 10 ^ 8)
       in format_price (Inr (Finite q))
            = (if fraction = [] then whole else whole @ ''.'' @ fraction)
          \<and> length fraction \<le> 8
          \<and> (fraction \<noteq> [] \<longrightarrow> last fraction \<noteq> CHR ''0'')"
    unfolding Let_def
    using format_price_lt_1[OF q0 q1] len
      rstrip_last[of "CHR ''0''" "zero_pad 8 (digits (scaled 8 q mod 10 ^ 8))"]
    by simp
  show "decimal_value (digits (scaled 8 q div 10 ^ 8)) = scaled 8 q div 10 ^ 8"
    by (rule decimal_value_digits)
  show "decimal_value (zero_pad 8 (digits (scaled 8 q mod 10 ^ 8))) = scaled 8 q mod 10 ^ 8"
    by (rule decimal_value_zero_pad)
  from q0 show "\<bar>of_nat (scaled 8 q) / 10 ^ 8 - q\<bar> \<le> 1 / (2 * 10 ^ 8)" by (rule scaled_close)
next
  show "format_price (Inr (Finite (2469 / 2))) = ''1,234.50''" by (rule format_price_1234_5)
  show "format_price (Inr (Finite 1)) = ''1.00''" by (rule format_price_1)
  show "format_price (Inr (Finite 1000)) = ''1,000.00''" by (rule format_price_1000)
  show "format_price (Inr (Finite (5302428716536693 / 4294967296))) = ''1,234,567.89''"
    by (rule format_price_double_1234567_891)
  show "format_price (Inr (Finite (2913700119930571 / 2361183241434822606848))) = ''0.00000123''"
    by (rule format_price_double_1234e_9)
  show "format_price (Inr (Finite (617 / 500000000))) = ''0.00000123''"
    by (rule format_price_1234e_9)
  show "format_price (Inr Pos_inf) = ''inf''" by (rule format_price_special)
  show "format_price (Inr Neg_inf) = ''-inf''" by (rule format_price_special)
  show "format_price (Inr NaN) = ''nan''" by (rule format_price_special)
  show "format_price (Inr Neg_zero) = ''-0''" by (rule format_price_special)
  show "format_price (Inl ex) = ''N/A''" by (simp add: format_price_def format_price_try_def)
next
  assume "format_price_try price = Inl ex"
  then show "format_price price = ''N/A''" by (rule format_price_non_numeric)
qed

theorem format_price_rounds_and_trims_witness:
  "(1::rat) \<le> 2469 / 2
   \<and> grouped_by_three (group_thousands (digits (scaled 2 (2469 / 2) div 100)))
        (digits (scaled 2 (2469 / 2) div 100))
   \<and> grouped_by_three ''1,234'' ''1234''
   \<and> length (zero_pad 2 (digits (scaled 2 (2469 / 2) mod 100))) = 2
   \<and> (0::rat) < 1 / 8 \<and> (1::rat) / 8 < 1
   \<and> \<bar>of_nat (scaled 8 (1 / 8)) / 10 ^ 8 - 1 / 8\<bar> \<le> (1::rat) / (2 * 10 ^ 8)
   \<and> format_price_try (Inl TypeError) = Inl TypeError
   \<and> format_price (Inl TypeError) = ''N/A''"
proof -
  have h1: "(1::rat) \<le> 2469 / 2" by simp
  have h2: "(0::rat) < 1 / 8 \<and> (1::rat) / 8 < 1" by simp
  have h3: "format_price_try (Inl TypeError) = Inl TypeError" by (simp add: format_price_try_def)
  have e: "group_thousands (digits (scaled 2 (2469 / 2) div 100)) = ''1,234''"
    "digits (scaled 2 (2469 / 2) div 100) = ''1234''"
    by (simp_all add: scaled_1234_5 digits_1234 group_1234)
  note t = format_price_rounds_and_trims[where p = "2469 / 2" and q = "1 / 8"
      and price = "Inl TypeError" and ex = TypeError]
  from t h1 have g: "grouped_by_three (group_thousands (digits (scaled 2 (2469 / 2) div 100)))
        (digits (scaled 2 (2469 / 2) div 100))" by blast
  then have g': "grouped_by_three ''1,234'' ''1234''" by (simp only: e group_1234)
  from h1 h2 h3 g g' t show ?thesis by blast
qed

text \<open>
  The claim as the specification words it has the input 0.000001234 produce
  "0.000001234", which has nine decimals.  It also has every numeric input \<open>p \<ge> 1\<close>
  come out grouped with two decimals: the infinity, which \<open>float\<close> returns for the text
  \<open>'1e999'\<close> and which is \<open>\<ge> 1\<close>, comes out as "inf"; and NaN comes out as "nan", not
  as "N/A".
\<close>

theorem format_price_nine_decimals_inf_nan:
  "format_price (Inr (Finite (2913700119930571 / 2361183241434822606848))) \<noteq> ''0.000001234''
   \<and> format_price (Inr (Finite (617 / 500000000))) \<noteq> ''0.000001234''
   \<and> float_ge_1 Pos_inf \<and> format_price (Inr Pos_inf) = ''inf''
   \<and> format_price (Inr NaN) = ''nan''"
  by (simp add: format_price_double_1234e_9 format_price_1234e_9 format_price_special)

end
